theory Spec2Isabelle
  imports Complex_Main "HOL-Library.AList" "HOL-Library.Multiset"
begin

section \<open>JavaScript numbers\<close>

text \<open>
  The calculator computes on JavaScript \<open>number\<close>s. A finite number is modelled by the
  real it denotes (rounding, overflow to infinity and the sign of zero are left out); the
  three special values are kept, because the code can produce them: \<open>0 / 0\<close> is \<open>NaN\<close>
  and \<open>x / 0\<close> is an infinity, where HOL's own division would return \<open>0\<close>.
\<close>

datatype jsnum = Fin real | PosInf | NegInf | NaN

fun jneg :: "jsnum \<Rightarrow> jsnum" where
  "jneg (Fin x) = Fin (- x)"
| "jneg PosInf = NegInf"
| "jneg NegInf = PosInf"
| "jneg NaN = NaN"

fun jadd :: "jsnum \<Rightarrow> jsnum \<Rightarrow> jsnum" where
  "jadd (Fin x) (Fin y) = Fin (x + y)"
| "jadd (Fin x) PosInf = PosInf"
| "jadd (Fin x) NegInf = NegInf"
| "jadd PosInf (Fin y) = PosInf"
| "jadd PosInf PosInf = PosInf"
| "jadd PosInf NegInf = NaN"
| "jadd NegInf (Fin y) = NegInf"
| "jadd NegInf PosInf = NaN"
| "jadd NegInf NegInf = NegInf"
| "jadd NaN b = NaN"
| "jadd a NaN = NaN"

definition jsub :: "jsnum \<Rightarrow> jsnum \<Rightarrow> jsnum" where
  "jsub a b = jadd a (jneg b)"

text \<open>The infinity with the sign of \<open>x\<close>, for \<open>x \<noteq> 0\<close>.\<close>

definition inf_of_sign :: "real \<Rightarrow> jsnum" where
  "inf_of_sign x = (if 0 < x then PosInf else NegInf)"

fun jmul :: "jsnum \<Rightarrow> jsnum \<Rightarrow> jsnum" where
  "jmul (Fin x) (Fin y) = Fin (x * y)"
| "jmul (Fin x) PosInf = (if x = 0 then NaN else inf_of_sign x)"
| "jmul (Fin x) NegInf = (if x = 0 then NaN else inf_of_sign (- x))"
| "jmul PosInf (Fin y) = (if y = 0 then NaN else inf_of_sign y)"
| "jmul NegInf (Fin y) = (if y = 0 then NaN else inf_of_sign (- y))"
| "jmul PosInf PosInf = PosInf"
| "jmul PosInf NegInf = NegInf"
| "jmul NegInf PosInf = NegInf"
| "jmul NegInf NegInf = PosInf"
| "jmul NaN b = NaN"
| "jmul a NaN = NaN"

text \<open>
  Division. A zero divisor is taken as \<open>+0\<close>: the only divisors of the calculator are
  sums that start from the literal \<open>0\<close>, and such a sum is never \<open>-0\<close>.
\<close>

fun jdiv :: "jsnum \<Rightarrow> jsnum \<Rightarrow> jsnum" where
  "jdiv (Fin x) (Fin y) =
     (if y \<noteq> 0 then Fin (x / y) else if x = 0 then NaN else inf_of_sign x)"
| "jdiv (Fin x) PosInf = Fin 0"
| "jdiv (Fin x) NegInf = Fin 0"
| "jdiv PosInf (Fin y) = (if 0 \<le> y then PosInf else NegInf)"
| "jdiv NegInf (Fin y) = (if 0 \<le> y then NegInf else PosInf)"
| "jdiv PosInf PosInf = NaN"
| "jdiv PosInf NegInf = NaN"
| "jdiv NegInf PosInf = NaN"
| "jdiv NegInf NegInf = NaN"
| "jdiv NaN b = NaN"
| "jdiv a NaN = NaN"

text \<open>\<open>a > b\<close> and \<open>a >= b\<close>: every comparison with \<open>NaN\<close> is false.\<close>

fun jgt :: "jsnum \<Rightarrow> jsnum \<Rightarrow> bool" where
  "jgt (Fin x) (Fin y) = (y < x)"
| "jgt (Fin x) NegInf = True"
| "jgt PosInf (Fin y) = True"
| "jgt PosInf NegInf = True"
| "jgt a b = False"

fun jge :: "jsnum \<Rightarrow> jsnum \<Rightarrow> bool" where
  "jge NaN b = False"
| "jge a NaN = False"
| "jge a b = (a = b \<or> jgt a b)"

text \<open>\<open>Math.min(a, b)\<close>: \<open>NaN\<close> if either argument is.\<close>

fun jmin :: "jsnum \<Rightarrow> jsnum \<Rightarrow> jsnum" where
  "jmin NaN b = NaN"
| "jmin a NaN = NaN"
| "jmin a b = (if jgt a b then b else a)"

text \<open>\<open>Math.abs\<close>.\<close>

fun jabs :: "jsnum \<Rightarrow> jsnum" where
  "jabs (Fin x) = Fin \<bar>x\<bar>"
| "jabs PosInf = PosInf"
| "jabs NegInf = PosInf"
| "jabs NaN = NaN"

text \<open>\<open>v || 0\<close> on an optional number: \<open>undefined\<close>, \<open>0\<close> and \<open>NaN\<close> are falsy.\<close>

fun or_zero :: "jsnum option \<Rightarrow> jsnum" where
  "or_zero None = Fin 0"
| "or_zero (Some (Fin x)) = Fin x"
| "or_zero (Some NaN) = Fin 0"
| "or_zero (Some v) = v"

section \<open>Data model (\<open>types/index.ts\<close>)\<close>

datatype tx_type = Buy | Sell | TransferIn | TransferOut

text \<open>
  The fields of each interface carry a prefix, since several interfaces share field
  names. A timestamp is an integer (milliseconds since the epoch).
\<close>

record Transaction =
  tx_hash :: string
  tx_chain :: string
  tx_timestamp :: int
  tx_type :: tx_type
  tx_token_symbol :: string
  tx_token_address :: string
  tx_quantity :: jsnum
  tx_price_usd :: jsnum
  tx_total_value_usd :: jsnum
  tx_realized_pnl_usd :: "jsnum option"

record Position =
  pos_quantity :: jsnum
  pos_price_usd :: jsnum
  pos_timestamp :: int
  pos_tx_hash :: string

record TokenPnL =
  tok_token_symbol :: string
  tok_token_address :: string
  tok_chain :: string
  tok_quantity_held :: jsnum
  tok_average_buy_price_usd :: jsnum
  tok_current_price_usd :: jsnum
  tok_realized_pnl_usd :: jsnum
  tok_unrealized_pnl_usd :: jsnum
  tok_total_pnl_usd :: jsnum
  tok_pnl_percentage :: jsnum

record ChainPnL =
  ch_chain :: string
  ch_realized_pnl_usd :: jsnum
  ch_unrealized_pnl_usd :: jsnum
  ch_total_pnl_usd :: jsnum
  ch_pnl_percentage :: jsnum

record PnLSummary =
  total_realized_pnl_usd :: jsnum
  total_unrealized_pnl_usd :: jsnum
  total_pnl_usd :: jsnum
  total_pnl_percentage :: jsnum
  initial_investment_usd :: jsnum
  current_value_usd :: jsnum

record Metadata =
  last_updated :: int
  chains_queried :: "string list"
  data_sources :: "string list"

record PnLResult =
  summary :: PnLSummary
  by_chain :: "ChainPnL list"
  by_token :: "TokenPnL list"
  transactions :: "Transaction list"
  metadata :: Metadata

section \<open>The calculator's state\<close>

text \<open>
  Objects are shared by reference in the source, and two of its assignments write through
  a reference (\<open>position.quantity -= ...\<close> and \<open>tx.realized_pnl_usd = ...\<close>), so both kinds
  of object live in a store.
  \<^item> \<open>heap\<close>: the \<open>Position\<close> objects the calculator has created; a reference is an index,
    and creating an object appends it.
  \<^item> \<open>txs\<close>: the caller's \<open>Transaction\<close> objects, by reference.
  \<^item> \<open>positions\<close>: \<open>Map<string, Position[]>\<close>, each array a list of references.
  \<^item> \<open>tokenPnL\<close>: \<open>Map<string, TokenPnL>\<close>; a JavaScript \<open>Map\<close> iterates in insertion
    order, which an association list updated in place keeps.
\<close>

record calc =
  positions :: "(string \<times> nat list) list"
  tokenPnL :: "(string \<times> TokenPnL) list"
  heap :: "Position list"
  txs :: "nat \<Rightarrow> Transaction"

text \<open>\<open>this.positions.get(key) || []\<close>: an array is truthy, so only a missing key gives \<open>[]\<close>.\<close>

definition positions_of :: "calc \<Rightarrow> string \<Rightarrow> nat list" where
  "positions_of s key = (case map_of (positions s) key of Some ps \<Rightarrow> ps | None \<Rightarrow> [])"

text \<open>The two \<open>reduce\<close> calls over an array of positions, from the left and from \<open>0\<close>.\<close>

definition total_quantity :: "Position list \<Rightarrow> nat list \<Rightarrow> jsnum" where
  "total_quantity h ps = foldl (\<lambda>sum r. jadd sum (pos_quantity (h ! r))) (Fin 0) ps"

definition total_value :: "Position list \<Rightarrow> nat list \<Rightarrow> jsnum" where
  "total_value h ps =
     foldl (\<lambda>sum r. jadd sum (jmul (pos_quantity (h ! r)) (pos_price_usd (h ! r)))) (Fin 0) ps"

section \<open>\<open>PnLCalculator\<close> (\<open>services/pnlCalculator.ts\<close>)\<close>

text \<open>
  \<open>getTokenKey\<close> (lines 307-309): \<open>`${chain}:${symbol}:${address}`.toLowerCase()\<close>.
  Strings are byte strings here and only the ASCII letters are lowered.
\<close>

definition lower_char :: "char \<Rightarrow> char" where
  "lower_char c =
     (let n = (of_char c :: nat) in if 65 \<le> n \<and> n \<le> 90 then char_of (n + 32) else c)"

definition getTokenKey :: "string \<Rightarrow> string \<Rightarrow> string \<Rightarrow> string" where
  "getTokenKey chain symbol address = map lower_char (chain @ '':'' @ symbol @ '':'' @ address)"

text \<open>
  \<open>updateTokenPnL\<close> (lines 162-196). \<open>new_TokenPnL\<close> is the object literal it starts from
  when the key has no entry yet.
\<close>

definition new_TokenPnL :: "string \<Rightarrow> string \<Rightarrow> string \<Rightarrow> TokenPnL" where
  "new_TokenPnL chain symbol address =
     \<lparr> tok_token_symbol = symbol, tok_token_address = address, tok_chain = chain,
       tok_quantity_held = Fin 0, tok_average_buy_price_usd = Fin 0,
       tok_current_price_usd = Fin 0, tok_realized_pnl_usd = Fin 0,
       tok_unrealized_pnl_usd = Fin 0, tok_total_pnl_usd = Fin 0,
       tok_pnl_percentage = Fin 0 \<rparr>"

definition updateTokenPnL ::
  "string \<Rightarrow> string \<Rightarrow> string \<Rightarrow> string \<Rightarrow> jsnum \<Rightarrow> calc \<Rightarrow> calc" where
  "updateTokenPnL key chain symbol address realizedPnL s =
     (let existing = (case map_of (tokenPnL s) key of
                        Some e \<Rightarrow> e
                      | None \<Rightarrow> new_TokenPnL chain symbol address);
          existing = existing\<lparr>tok_realized_pnl_usd :=
                       jadd (tok_realized_pnl_usd existing) realizedPnL\<rparr>;
          ps = positions_of s key;
          totalQuantity = total_quantity (heap s) ps;
          totalValue = total_value (heap s) ps;
          existing = existing\<lparr>tok_quantity_held := totalQuantity,
                       tok_average_buy_price_usd :=
                         (if jgt totalQuantity (Fin 0) then jdiv totalValue totalQuantity
                          else Fin 0)\<rparr>
      in s\<lparr>tokenPnL := AList.update key existing (tokenPnL s)\<rparr>)"

text \<open>
  \<open>addPosition\<close> (lines 86-100): a new \<open>Position\<close> object is pushed onto the key's array.
\<close>

definition addPosition :: "string \<Rightarrow> nat \<Rightarrow> calc \<Rightarrow> calc" where
  "addPosition key t s =
     (let tx = txs s t;
          ps = positions_of s key;
          r = length (heap s);
          s = s\<lparr>heap := heap s @ [\<lparr> pos_quantity = tx_quantity tx,
                                      pos_price_usd = tx_price_usd tx,
                                      pos_timestamp = tx_timestamp tx,
                                      pos_tx_hash = tx_hash tx \<rparr>],
                positions := AList.update key (ps @ [r]) (positions s)\<rparr>
      in updateTokenPnL key (tx_chain tx) (tx_token_symbol tx) (tx_token_address tx) (Fin 0) s)"

text \<open>
  \<open>orderPositions\<close> (lines 139-157). \<open>[...positions].sort(cmp)\<close> is a new array of the
  same objects, sorted stably by the comparator; \<open>positions.map(p => ({...p, price_usd:
  avgPrice}))\<close> is an array of new objects. The method is the string the constructor was
  given (lines 20-22), which the \<open>switch\<close> compares with the three names.
\<close>

definition orderPositions ::
  "string \<Rightarrow> Position list \<Rightarrow> nat list \<Rightarrow> Position list \<times> nat list" where
  "orderPositions method h ps =
     (if method = ''fifo'' then (h, sort_key (\<lambda>r. pos_timestamp (h ! r)) ps)
      else if method = ''lifo'' then (h, sort_key (\<lambda>r. - pos_timestamp (h ! r)) ps)
      else if method = ''avg'' then
        (let totalQuantity = total_quantity h ps;
             totalValue = total_value h ps;
             avgPrice = jdiv totalValue totalQuantity
         in (h @ map (\<lambda>r. (h ! r)\<lparr>pos_price_usd := avgPrice\<rparr>) ps,
             [length h ..< length h + length ps]))
      else (h, ps))"

text \<open>
  \<open>removePosition\<close> (lines 105-134). \<open>sell_loop\<close> is its loop (lines 113-120) from index
  \<open>i\<close> on; it returns the store, \<open>remainingQuantity\<close> and \<open>totalCostBasis\<close> as they are when
  the loop ends. A reference always points to an object of the store (the invariant \<open>wf\<close>
  below), so that \<open>h ! r\<close> is the object the source reads.
\<close>

fun sell_loop ::
  "Position list \<Rightarrow> nat list \<Rightarrow> jsnum \<Rightarrow> jsnum \<Rightarrow> Position list \<times> jsnum \<times> jsnum" where
  "sell_loop h [] remainingQuantity totalCostBasis = (h, remainingQuantity, totalCostBasis)"
| "sell_loop h (r # rs) remainingQuantity totalCostBasis =
     (if jgt remainingQuantity (Fin 0) then
        (let position = h ! r;
             quantityToSell = jmin (pos_quantity position) remainingQuantity;
             totalCostBasis = jadd totalCostBasis (jmul quantityToSell (pos_price_usd position));
             h = h[r := position\<lparr>pos_quantity := jsub (pos_quantity position) quantityToSell\<rparr>];
             remainingQuantity = jsub remainingQuantity quantityToSell
         in sell_loop h rs remainingQuantity totalCostBasis)
      else (h, remainingQuantity, totalCostBasis))"

definition removePosition :: "string \<Rightarrow> string \<Rightarrow> nat \<Rightarrow> calc \<Rightarrow> calc" where
  "removePosition method key t s =
     (let tx = txs s t;
          ps = positions_of s key;
          (h, orderedPositions) = orderPositions method (heap s) ps;
          (h, remainingQuantity, totalCostBasis) =
             sell_loop h orderedPositions (tx_quantity tx) (Fin 0);
          s = s\<lparr>heap := h,
                positions := AList.update key
                  (filter (\<lambda>r. jgt (pos_quantity (h ! r)) (Fin 0)) ps) (positions s)\<rparr>;
          saleProceeds = jmul (tx_quantity tx) (tx_price_usd tx);
          realizedPnL = jsub saleProceeds totalCostBasis;
          s = s\<lparr>txs := (txs s)(t := tx\<lparr>tx_realized_pnl_usd := Some realizedPnL\<rparr>)\<rparr>
      in updateTokenPnL key (tx_chain tx) (tx_token_symbol tx) (tx_token_address tx)
           realizedPnL s)"

text \<open>\<open>processTransaction\<close> (lines 73-81).\<close>

definition processTransaction :: "string \<Rightarrow> nat \<Rightarrow> calc \<Rightarrow> calc" where
  "processTransaction method t s =
     (let tx = txs s t;
          key = getTokenKey (tx_chain tx) (tx_token_symbol tx) (tx_token_address tx)
      in if tx_type tx = Buy \<or> tx_type tx = TransferIn then addPosition key t s
         else if tx_type tx = Sell \<or> tx_type tx = TransferOut then removePosition method key t s
         else s)"

text \<open>
  \<open>calculateUnrealizedPnL\<close> (lines 201-220): one pass over the entries of \<open>tokenPnL\<close>;
  \<open>finalize\<close> is the body of its loop.
\<close>

definition finalize :: "(string \<Rightarrow> jsnum option) \<Rightarrow> TokenPnL \<Rightarrow> TokenPnL" where
  "finalize currentPrices pnl =
     (let currentPrice = or_zero (currentPrices (tok_token_symbol pnl));
          pnl = pnl\<lparr>tok_current_price_usd := currentPrice\<rparr>;
          pnl = (if jgt (tok_quantity_held pnl) (Fin 0) then
                   (let currentValue = jmul (tok_quantity_held pnl) currentPrice;
                        costBasis = jmul (tok_quantity_held pnl) (tok_average_buy_price_usd pnl)
                    in pnl\<lparr>tok_unrealized_pnl_usd := jsub currentValue costBasis\<rparr>)
                 else pnl);
          pnl = pnl\<lparr>tok_total_pnl_usd :=
                  jadd (tok_realized_pnl_usd pnl) (tok_unrealized_pnl_usd pnl)\<rparr>;
          totalCostBasis =
            jadd (jmul (tok_quantity_held pnl) (tok_average_buy_price_usd pnl))
                 (jabs (tok_realized_pnl_usd pnl))
      in pnl\<lparr>tok_pnl_percentage :=
               (if jgt totalCostBasis (Fin 0)
                then jmul (jdiv (tok_total_pnl_usd pnl) totalCostBasis) (Fin 100)
                else Fin 0)\<rparr>)"

definition calculateUnrealizedPnL :: "(string \<Rightarrow> jsnum option) \<Rightarrow> calc \<Rightarrow> calc" where
  "calculateUnrealizedPnL currentPrices s =
     s\<lparr>tokenPnL := map (\<lambda>(key, pnl). (key, finalize currentPrices pnl)) (tokenPnL s)\<rparr>"

text \<open>
  \<open>aggregateByChain\<close> (lines 225-252): \<open>chainMap\<close> is a \<open>Map\<close>, so the chains come out in
  insertion order. \<open>add_to_chain\<close> is the body of the first loop and \<open>chain_percentage\<close>
  that of the second.
\<close>

definition add_to_chain :: "(string \<times> ChainPnL) list \<Rightarrow> TokenPnL \<Rightarrow> (string \<times> ChainPnL) list" where
  "add_to_chain chainMap token =
     (let existing = (case map_of chainMap (tok_chain token) of
                        Some e \<Rightarrow> e
                      | None \<Rightarrow> \<lparr> ch_chain = tok_chain token, ch_realized_pnl_usd = Fin 0,
                                  ch_unrealized_pnl_usd = Fin 0, ch_total_pnl_usd = Fin 0,
                                  ch_pnl_percentage = Fin 0 \<rparr>);
          existing = existing\<lparr>
            ch_realized_pnl_usd := jadd (ch_realized_pnl_usd existing) (tok_realized_pnl_usd token),
            ch_unrealized_pnl_usd :=
              jadd (ch_unrealized_pnl_usd existing) (tok_unrealized_pnl_usd token),
            ch_total_pnl_usd := jadd (ch_total_pnl_usd existing) (tok_total_pnl_usd token)\<rparr>
      in AList.update (tok_chain token) existing chainMap)"

definition chain_percentage :: "ChainPnL \<Rightarrow> ChainPnL" where
  "chain_percentage c =
     (let totalInvested = jabs (jsub (ch_total_pnl_usd c) (ch_realized_pnl_usd c))
      in c\<lparr>ch_pnl_percentage :=
             (if jgt totalInvested (Fin 0)
              then jmul (jdiv (ch_total_pnl_usd c) totalInvested) (Fin 100)
              else Fin 0)\<rparr>)"

definition aggregateByChain :: "TokenPnL list \<Rightarrow> ChainPnL list" where
  "aggregateByChain tokens = map (chain_percentage \<circ> snd) (foldl add_to_chain [] tokens)"

text \<open>
  \<open>calculateSummary\<close> (lines 257-302); \<open>reduce_sum f tokens\<close> is
  \<open>tokens.reduce((sum, t) => sum + f(t), 0)\<close>.
\<close>

definition reduce_sum :: "('a \<Rightarrow> jsnum) \<Rightarrow> 'a list \<Rightarrow> jsnum" where
  "reduce_sum f xs = foldl (\<lambda>sum t. jadd sum (f t)) (Fin 0) xs"

definition calculateSummary :: "TokenPnL list \<Rightarrow> PnLSummary" where
  "calculateSummary tokens =
     (let total_realized = reduce_sum tok_realized_pnl_usd tokens;
          total_unrealized = reduce_sum tok_unrealized_pnl_usd tokens;
          current_value =
            reduce_sum (\<lambda>t. jmul (tok_quantity_held t) (tok_current_price_usd t)) tokens;
          remaining_cost_basis =
            reduce_sum (\<lambda>t. jmul (tok_quantity_held t) (tok_average_buy_price_usd t)) tokens;
          total_sale_proceeds = reduce_sum tok_realized_pnl_usd tokens;
          initial_investment =
            jadd remaining_cost_basis
              (if jge total_sale_proceeds (Fin 0) then total_sale_proceeds
               else jneg total_sale_proceeds);
          total_pnl = jadd (jsub current_value remaining_cost_basis) total_realized;
          total_change = jsub current_value initial_investment;
          pnl_percentage =
            (if jgt initial_investment (Fin 0)
             then jmul (jdiv total_change initial_investment) (Fin 100) else Fin 0)
      in \<lparr> total_realized_pnl_usd = total_realized,
           total_unrealized_pnl_usd = total_unrealized,
           total_pnl_usd = total_change,
           total_pnl_percentage = pnl_percentage,
           initial_investment_usd = initial_investment,
           current_value_usd = current_value \<rparr>)"

text \<open>\<open>[...new Set(xs)]\<close>: the distinct elements in the order of their first occurrence.\<close>

fun uniq :: "'a list \<Rightarrow> 'a list" where
  "uniq [] = []"
| "uniq (x # xs) = x # filter (\<lambda>y. y \<noteq> x) (uniq xs)"

text \<open>
  \<open>calculate\<close> (lines 27-68). The arguments are the method given to the constructor, the
  store of the caller's transaction objects, the \<open>transactions\<close> array (\<open>input\<close>, references
  into that store), the price map and the value of \<open>Date.now()\<close>. Both maps are cleared
  first, so the run starts from empty maps (\<open>init\<close>); \<open>replay\<close> is the loop over the sorted
  transactions. The result comes with the store of transaction objects as the call
  leaves it. The sort is stable (ECMAScript 2019), as \<open>sort_key\<close> is.
\<close>

definition init :: "(nat \<Rightarrow> Transaction) \<Rightarrow> calc" where
  "init th = \<lparr> positions = [], tokenPnL = [], heap = [], txs = th \<rparr>"

definition replay :: "string \<Rightarrow> nat list \<Rightarrow> calc \<Rightarrow> calc" where
  "replay method ts s = foldl (\<lambda>s t. processTransaction method t s) s ts"

definition calculate ::
  "string \<Rightarrow> (nat \<Rightarrow> Transaction) \<Rightarrow> nat list \<Rightarrow> (string \<Rightarrow> jsnum option) \<Rightarrow> int
     \<Rightarrow> (nat \<Rightarrow> Transaction) \<times> PnLResult" where
  "calculate method th input currentPrices now =
     (let sortedTxs = sort_key (\<lambda>t. tx_timestamp (th t)) input;
          s = replay method sortedTxs (init th);
          s = calculateUnrealizedPnL currentPrices s;
          byToken = map snd (tokenPnL s);
          byChain = aggregateByChain byToken;
          summ = calculateSummary byToken;
          processedTxs =
            map (\<lambda>t. (txs s t)\<lparr>tx_realized_pnl_usd :=
                        (if tx_type (txs s t) = Sell then tx_realized_pnl_usd (txs s t)
                         else None)\<rparr>) sortedTxs
      in (txs s,
          \<lparr> summary = summ, by_chain = byChain, by_token = byToken,
            transactions = processedTxs,
            metadata = \<lparr> last_updated = now,
                         chains_queried = uniq (map (\<lambda>t. tx_chain (txs s t)) input),
                         data_sources = [''etherscan'', ''defillama'', ''coingecko''] \<rparr> \<rparr>))"

section \<open>Scenarios\<close>

text \<open>
  Concrete inputs. \<open>store_of xs\<close> is a store whose reference \<open>i\<close> is the \<open>i\<close>-th
  transaction of \<open>xs\<close>.
\<close>

definition mk_tx :: "string \<Rightarrow> string \<Rightarrow> int \<Rightarrow> tx_type \<Rightarrow> real \<Rightarrow> real \<Rightarrow> Transaction" where
  "mk_tx chain symbol ts ty q p =
     \<lparr> tx_hash = ''0x1'', tx_chain = chain, tx_timestamp = ts, tx_type = ty,
       tx_token_symbol = symbol, tx_token_address = ''0x0'', tx_quantity = Fin q,
       tx_price_usd = Fin p, tx_total_value_usd = Fin (q * p), tx_realized_pnl_usd = None \<rparr>"

definition store_of :: "Transaction list \<Rightarrow> nat \<Rightarrow> Transaction" where
  "store_of xs t = (if t < length xs then xs ! t else mk_tx [] [] 0 Buy 0 0)"

text \<open>Buy 2 at 1800, buy 1 at 2000, sell 1 at 2200.\<close>

definition regression :: "nat \<Rightarrow> Transaction" where
  "regression = store_of [mk_tx ''ethereum'' ''ETH'' 1 Buy 2 1800,
                          mk_tx ''ethereum'' ''ETH'' 2 Buy 1 2000,
                          mk_tx ''ethereum'' ''ETH'' 3 Sell 1 2200]"

text \<open>Buy 1 at 100, sell 1 at 150.\<close>

definition full_exit :: "nat \<Rightarrow> Transaction" where
  "full_exit = store_of [mk_tx ''ethereum'' ''ETH'' 1 Buy 1 100,
                         mk_tx ''ethereum'' ''ETH'' 2 Sell 1 150]"

text \<open>Two positions, the newer one first in the array.\<close>

definition two_lots :: "Position list" where
  "two_lots = [\<lparr> pos_quantity = Fin 1, pos_price_usd = Fin 2000, pos_timestamp = 2,
                 pos_tx_hash = ''0x2'' \<rparr>,
               \<lparr> pos_quantity = Fin 2, pos_price_usd = Fin 1800, pos_timestamp = 1,
                 pos_tx_hash = ''0x1'' \<rparr>]"

text \<open>A buy and a sell of the same token with the same timestamp.\<close>

definition same_time :: "nat \<Rightarrow> Transaction" where
  "same_time = store_of [mk_tx ''ethereum'' ''ETH'' 1 Buy 1 100,
                         mk_tx ''ethereum'' ''ETH'' 1 Sell 1 150]"

text \<open>Two buys on two chains, at different times.\<close>

definition two_chains :: "nat \<Rightarrow> Transaction" where
  "two_chains = store_of [mk_tx ''ethereum'' ''ETH'' 1 Buy 1 100,
                          mk_tx ''base'' ''ETH'' 2 Buy 1 100]"

text \<open>Buy 2 at 10, sell 5 at 12.\<close>

definition oversell :: "nat \<Rightarrow> Transaction" where
  "oversell = store_of [mk_tx ''ethereum'' ''ETH'' 1 Buy 2 10,
                        mk_tx ''ethereum'' ''ETH'' 2 Sell 5 12]"

text \<open>Buy 0 at 100, sell 1 at 150.\<close>

definition zero_acquisition :: "nat \<Rightarrow> Transaction" where
  "zero_acquisition = store_of [mk_tx ''ethereum'' ''ETH'' 1 Buy 0 100,
                                mk_tx ''ethereum'' ''ETH'' 2 Sell 1 150]"

section \<open>Specification vocabulary\<close>

text \<open>A non-negative real number, as the data model asks of a quantity.\<close>

fun nonneg :: "jsnum \<Rightarrow> bool" where
  "nonneg (Fin q) = (0 \<le> q)"
| "nonneg v = False"

text \<open>
  Two invariants of the calculator's state: the references of every key's array are
  distinct and point into the store, and every \<open>Position\<close> object of the store has a
  non-negative quantity.
\<close>

definition wf :: "calc \<Rightarrow> bool" where
  "wf s = (\<forall>key. distinct (positions_of s key)
                \<and> (\<forall>r \<in> set (positions_of s key). r < length (heap s)))"

definition lots_nonneg :: "Position list \<Rightarrow> bool" where
  "lots_nonneg h = (\<forall>p \<in> set h. nonneg (pos_quantity p))"

text \<open>
  The lots a disposal selects, in the words of the specification: going through the
  ordered lots while some requested quantity remains, each lot gives the smaller of its
  quantity and the remaining request. \<open>consumed\<close> lists the lots visited with the
  quantity taken from each, and \<open>cost_from\<close> adds up quantity taken times unit cost.
\<close>

fun consumed :: "Position list \<Rightarrow> nat list \<Rightarrow> jsnum \<Rightarrow> (nat \<times> jsnum) list" where
  "consumed h [] rem = []"
| "consumed h (r # rs) rem =
     (if jgt rem (Fin 0) then
        (let q = jmin (pos_quantity (h ! r)) rem in (r, q) # consumed h rs (jsub rem q))
      else [])"

definition cost_from :: "Position list \<Rightarrow> jsnum \<Rightarrow> (nat \<times> jsnum) list \<Rightarrow> jsnum" where
  "cost_from h c lots = foldl (\<lambda>sum (r, q). jadd sum (jmul q (pos_price_usd (h ! r)))) c lots"

text \<open>The real a finite number denotes, and the sum of the quantities of a list of lots.\<close>

fun real_of :: "jsnum \<Rightarrow> real" where
  "real_of (Fin x) = x"
| "real_of v = 0"

definition quantity_sum :: "Position list \<Rightarrow> nat list \<Rightarrow> real" where
  "quantity_sum h rs = (\<Sum>r\<leftarrow>rs. real_of (pos_quantity (h ! r)))"

section \<open>Properties\<close>

subsection \<open>Arithmetic of \<open>jsnum\<close>\<close>

lemma jabs_cond: "(if jge x (Fin 0) then x else jneg x) = jabs x"
  by (cases x) auto

subsection \<open>The regression scenario\<close>

text \<open>
  C1. Acquisitions of 2 at 1800 and of 1 at 2000, in that order of time, then a disposal
  of 1 at 2200: the realized P&L of the disposal is 400 under \<open>fifo\<close>, 200 under \<open>lifo\<close>
  and \<open>2200 - (2 * 1800 + 1 * 2000) / 3\<close> under \<open>avg\<close>, which is within 0.01 of 333.33.
  It is the value annotated on the disposal and the realized P&L of the token.
\<close>

theorem regression_scenario:
  "map tx_realized_pnl_usd
     (transactions (snd (calculate ''fifo'' regression [0, 1, 2] prices now)))
     = [None, None, Some (Fin 400)]
   \<and> map tok_realized_pnl_usd (by_token (snd (calculate ''fifo'' regression [0, 1, 2] prices now)))
     = [Fin 400]
   \<and> map tx_realized_pnl_usd
     (transactions (snd (calculate ''lifo'' regression [0, 1, 2] prices now)))
     = [None, None, Some (Fin 200)]
   \<and> map tok_realized_pnl_usd (by_token (snd (calculate ''lifo'' regression [0, 1, 2] prices now)))
     = [Fin 200]
   \<and> map tx_realized_pnl_usd
     (transactions (snd (calculate ''avg'' regression [0, 1, 2] prices now)))
     = [None, None, Some (Fin (2200 - (2 * 1800 + 1 * 2000) / 3))]
   \<and> map tok_realized_pnl_usd (by_token (snd (calculate ''avg'' regression [0, 1, 2] prices now)))
     = [Fin (2200 - (2 * 1800 + 1 * 2000) / 3)]
   \<and> \<bar>(2200 - (2 * 1800 + 1 * 2000) / 3) - 333.33\<bar> \<le> (0.01 :: real)"
proof (intro conjI)
  show "map tx_realized_pnl_usd
     (transactions (snd (calculate ''fifo'' regression [0, 1, 2] prices now)))
     = [None, None, Some (Fin 400)]"
    by code_simp
  show "map tok_realized_pnl_usd
     (by_token (snd (calculate ''fifo'' regression [0, 1, 2] prices now))) = [Fin 400]"
    by code_simp
  show "map tx_realized_pnl_usd
     (transactions (snd (calculate ''lifo'' regression [0, 1, 2] prices now)))
     = [None, None, Some (Fin 200)]"
    by code_simp
  show "map tok_realized_pnl_usd
     (by_token (snd (calculate ''lifo'' regression [0, 1, 2] prices now))) = [Fin 200]"
    by code_simp
  show "map tx_realized_pnl_usd
     (transactions (snd (calculate ''avg'' regression [0, 1, 2] prices now)))
     = [None, None, Some (Fin (2200 - (2 * 1800 + 1 * 2000) / 3))]"
    by code_simp
  show "map tok_realized_pnl_usd
     (by_token (snd (calculate ''avg'' regression [0, 1, 2] prices now)))
     = [Fin (2200 - (2 * 1800 + 1 * 2000) / 3)]"
    by code_simp
  show "\<bar>(2200 - (2 * 1800 + 1 * 2000) / 3) - 333.33\<bar> \<le> (0.01 :: real)"
    by simp
qed

subsection \<open>The portfolio summary\<close>

text \<open>
  C3. In the summary of every run, \<open>initial_investment_usd\<close> is the sum over the tokens
  of \<open>quantity_held * average_buy_price_usd\<close> plus the absolute value of the sum of the
  tokens' realized P&L, \<open>current_value_usd\<close> is the sum of \<open>quantity_held * current_price_usd\<close>,
  and \<open>total_pnl_usd\<close> is \<open>current_value_usd - initial_investment_usd\<close>. It is not
  \<open>total_realized_pnl_usd + total_unrealized_pnl_usd\<close>: after buying 1 at 100 and selling
  it at 150 the first is -50 and the second 50.
\<close>

theorem summary_from_value_and_investment:
  "(let res = snd (calculate method th input prices now);
        tokens = by_token res;
        sm = summary res
    in initial_investment_usd sm =
         jadd (reduce_sum (\<lambda>t. jmul (tok_quantity_held t) (tok_average_buy_price_usd t)) tokens)
              (jabs (reduce_sum tok_realized_pnl_usd tokens))
       \<and> current_value_usd sm =
         reduce_sum (\<lambda>t. jmul (tok_quantity_held t) (tok_current_price_usd t)) tokens
       \<and> total_pnl_usd sm = jsub (current_value_usd sm) (initial_investment_usd sm))
   \<and> (let sm = summary (snd (calculate ''fifo'' full_exit [0, 1]
                               (Map.empty(''ETH'' \<mapsto> Fin 150)) 0))
      in total_pnl_usd sm = Fin (- 50)
         \<and> jadd (total_realized_pnl_usd sm) (total_unrealized_pnl_usd sm) = Fin 50)"
proof (rule conjI)
  show "(let res = snd (calculate method th input prices now);
        tokens = by_token res;
        sm = summary res
    in initial_investment_usd sm =
         jadd (reduce_sum (\<lambda>t. jmul (tok_quantity_held t) (tok_average_buy_price_usd t)) tokens)
              (jabs (reduce_sum tok_realized_pnl_usd tokens))
       \<and> current_value_usd sm =
         reduce_sum (\<lambda>t. jmul (tok_quantity_held t) (tok_current_price_usd t)) tokens
       \<and> total_pnl_usd sm = jsub (current_value_usd sm) (initial_investment_usd sm))"
    by (simp add: calculate_def calculateSummary_def Let_def jabs_cond)
  show "(let sm = summary (snd (calculate ''fifo'' full_exit [0, 1]
                               (Map.empty(''ETH'' \<mapsto> Fin 150)) 0))
      in total_pnl_usd sm = Fin (- 50)
         \<and> jadd (total_realized_pnl_usd sm) (total_unrealized_pnl_usd sm) = Fin 50)"
    by code_simp
qed

subsection \<open>What a run writes\<close>

lemma txs_updateTokenPnL [simp]: "txs (updateTokenPnL key c sy a v s) = txs s"
  by (simp add: updateTokenPnL_def Let_def)

lemma heap_updateTokenPnL [simp]: "heap (updateTokenPnL key c sy a v s) = heap s"
  by (simp add: updateTokenPnL_def Let_def)

lemma positions_updateTokenPnL [simp]: "positions (updateTokenPnL key c sy a v s) = positions s"
  by (simp add: updateTokenPnL_def Let_def)

lemma txs_addPosition [simp]: "txs (addPosition key t s) = txs s"
  by (simp add: addPosition_def Let_def)

lemma txs_removePosition:
  "\<exists>v. txs (removePosition method key t s)
         = (txs s)(t := (txs s t)\<lparr>tx_realized_pnl_usd := Some v\<rparr>)"
  by (auto simp add: removePosition_def Let_def split: prod.splits)

lemma txs_processTransaction:
  "if tx_type (txs s t) = Sell \<or> tx_type (txs s t) = TransferOut
   then \<exists>v. txs (processTransaction method t s)
              = (txs s)(t := (txs s t)\<lparr>tx_realized_pnl_usd := Some v\<rparr>)
   else txs (processTransaction method t s) = txs s"
  using txs_removePosition [of "method" _ t s]
  by (cases "tx_type (txs s t)") (simp_all add: processTransaction_def Let_def)

lemma replay_Nil [simp]: "replay method [] s = s"
  by (simp add: replay_def)

lemma replay_snoc:
  "replay method (ts @ [t]) s = processTransaction method t (replay method ts s)"
  by (simp add: replay_def)

text \<open>
  Replaying \<open>ts\<close> leaves every transaction object as it was up to its \<open>realized_pnl_usd\<close>;
  it leaves acquisitions and the objects outside \<open>ts\<close> untouched, and sets the field on
  every disposal of \<open>ts\<close>.
\<close>

lemma txs_replay:
  "(\<forall>t. txs (replay method ts s) t
        = (txs s t)\<lparr>tx_realized_pnl_usd := tx_realized_pnl_usd (txs (replay method ts s) t)\<rparr>)
   \<and> (\<forall>t. t \<notin> set ts \<or> tx_type (txs s t) = Buy \<or> tx_type (txs s t) = TransferIn
          \<longrightarrow> txs (replay method ts s) t = txs s t)
   \<and> (\<forall>t. t \<in> set ts \<and> (tx_type (txs s t) = Sell \<or> tx_type (txs s t) = TransferOut)
          \<longrightarrow> tx_realized_pnl_usd (txs (replay method ts s) t) \<noteq> None)"
proof (induction ts rule: rev_induct)
  case Nil
  show ?case by simp
next
  case (snoc x ts)
  let ?s = "replay method ts s"
  obtain w where w: "txs ?s x = (txs s x)\<lparr>tx_realized_pnl_usd := w\<rparr>"
    using snoc by blast
  have ty: "tx_type (txs ?s x) = tx_type (txs s x)"
    by (simp add: w)
  show ?case
  proof (cases "tx_type (txs s x) = Sell \<or> tx_type (txs s x) = TransferOut")
    case True
    with ty txs_processTransaction [of ?s x "method"]
    obtain v where v: "txs (processTransaction method x ?s)
                        = (txs ?s)(x := (txs ?s x)\<lparr>tx_realized_pnl_usd := Some v\<rparr>)"
      by auto
    have a: "(txs ?s x)\<lparr>tx_realized_pnl_usd := Some v\<rparr>
               = (txs s x)\<lparr>tx_realized_pnl_usd := Some v\<rparr>"
      by (simp add: w)
    show ?thesis
      unfolding replay_snoc v using snoc True a by auto
  next
    case False
    with ty txs_processTransaction [of ?s x "method"]
    have v: "txs (processTransaction method x ?s) = txs ?s"
      by auto
    show ?thesis
      unfolding replay_snoc v using snoc False by (auto; metis tx_type.exhaust)
  qed
qed

lemma fst_calculate:
  "fst (calculate method th input prices now)
     = txs (replay method (sort_key (\<lambda>t. tx_timestamp (th t)) input) (init th))"
  by (simp add: calculate_def Let_def calculateUnrealizedPnL_def)

text \<open>
  C9, as stated: after \<open>calculate\<close> the caller's transaction records are as they were
  before. The sell of the regression scenario has no \<open>realized_pnl_usd\<close> before the call
  and 400 after it.
\<close>

theorem caller_records_counterexample:
  "tx_realized_pnl_usd (regression 2) = None
   \<and> tx_realized_pnl_usd (fst (calculate ''fifo'' regression [0, 1, 2] Map.empty 0) 2)
     = Some (Fin 400)"
  by code_simp

text \<open>
  C9, amended: \<open>calculate\<close> changes no field of the caller's transaction records other
  than \<open>realized_pnl_usd\<close>; it leaves the acquisitions and every record outside the input
  exactly as they were, and it writes \<open>realized_pnl_usd\<close> on every disposal (sell or
  transfer_out) of the input. The price map is only read: it is an argument of the
  model and no part of what the call returns.
\<close>

theorem calculate_writes_only_realized_pnl:
  "(let th' = fst (calculate method th input prices now)
    in (\<forall>t. th' t = (th t)\<lparr>tx_realized_pnl_usd := tx_realized_pnl_usd (th' t)\<rparr>)
       \<and> (\<forall>t. t \<notin> set input \<or> tx_type (th t) = Buy \<or> tx_type (th t) = TransferIn
              \<longrightarrow> th' t = th t)
       \<and> (\<forall>t. t \<in> set input \<and> (tx_type (th t) = Sell \<or> tx_type (th t) = TransferOut)
              \<longrightarrow> tx_realized_pnl_usd (th' t) \<noteq> None))"
  using txs_replay [of "method" "sort_key (\<lambda>t. tx_timestamp (th t)) input" "init th"]
  unfolding fst_calculate Let_def by (simp add: init_def)

theorem calculate_writes_only_realized_pnl_witness:
  "tx_type (regression 0) = Buy
   \<and> fst (calculate ''fifo'' regression [0, 1, 2] Map.empty 0) 0 = regression 0
   \<and> 2 \<in> set [0, 1, 2 :: nat] \<and> tx_type (regression 2) = Sell
   \<and> tx_realized_pnl_usd (fst (calculate ''fifo'' regression [0, 1, 2] Map.empty 0) 2) \<noteq> None"
proof -
  note c = calculate_writes_only_realized_pnl
             [of "''fifo''" regression "[0, 1, 2]" Map.empty 0, unfolded Let_def]
  have b: "tx_type (regression 0) = Buy"
    by (simp add: regression_def store_of_def mk_tx_def)
  have s: "tx_type (regression 2) = Sell"
    by (simp add: regression_def store_of_def mk_tx_def)
  from c b have 1: "fst (calculate ''fifo'' regression [0, 1, 2] Map.empty 0) 0 = regression 0"
    by blast
  from c s have 2:
    "tx_realized_pnl_usd (fst (calculate ''fifo'' regression [0, 1, 2] Map.empty 0) 2) \<noteq> None"
    by simp
  from b s 1 2 show ?thesis
    by simp
qed

subsection \<open>The order of the input\<close>

lemma sort_key_same_ties:
  assumes "mset xs = mset ys"
    and "\<And>k. filter (\<lambda>x. f x = k) xs = filter (\<lambda>x. f x = k) ys"
  shows "sort_key f xs = sort_key f ys"
proof (rule properties_for_sort_key)
  show "mset (sort_key f ys) = mset xs"
    using assms(1) by simp
  show "sorted (map f (sort_key f ys))"
    by simp
  show "filter (\<lambda>x. f k = f x) (sort_key f ys) = filter (\<lambda>x. f k = f x) xs" for k
  proof -
    have "filter (\<lambda>x. f k = f x) (sort_key f ys) = filter (\<lambda>x. f x = f k) (sort_key f ys)"
      by (rule filter_cong) auto
    also have "\<dots> = filter (\<lambda>x. f x = f k) ys"
      by (rule sort_key_stable)
    also have "\<dots> = filter (\<lambda>x. f x = f k) xs"
      by (rule assms(2) [symmetric])
    also have "\<dots> = filter (\<lambda>x. f k = f x) xs"
      by (rule filter_cong) auto
    finally show ?thesis .
  qed
qed

lemma set_uniq [simp]: "set (uniq xs) = set xs"
  by (induction xs) auto

text \<open>
  C7, as stated: every permutation of the input gives the same result. A buy and a sell
  with the same timestamp are replayed in the order of the input, and the realized P&L
  is 50 in one order and 150 in the other; and \<open>chains_queried\<close> lists the chains in the
  order in which the input first names them.
\<close>

theorem permutation_counterexample:
  "mset [1, 0] = mset [0, 1 :: nat]
   \<and> total_realized_pnl_usd (summary (snd (calculate ''fifo'' same_time [0, 1] Map.empty 0)))
     = Fin 50
   \<and> total_realized_pnl_usd (summary (snd (calculate ''fifo'' same_time [1, 0] Map.empty 0)))
     = Fin 150
   \<and> chains_queried (metadata (snd (calculate ''fifo'' two_chains [0, 1] Map.empty 0)))
     = [''ethereum'', ''base'']
   \<and> chains_queried (metadata (snd (calculate ''fifo'' two_chains [1, 0] Map.empty 0)))
     = [''base'', ''ethereum'']"
proof (intro conjI)
  show "mset [1, 0] = mset [0, 1 :: nat]"
    by simp
  show "total_realized_pnl_usd
          (summary (snd (calculate ''fifo'' same_time [0, 1] Map.empty 0))) = Fin 50"
    by code_simp
  show "total_realized_pnl_usd
          (summary (snd (calculate ''fifo'' same_time [1, 0] Map.empty 0))) = Fin 150"
    by code_simp
  show "chains_queried (metadata (snd (calculate ''fifo'' two_chains [0, 1] Map.empty 0)))
          = [''ethereum'', ''base'']"
    by code_simp
  show "chains_queried (metadata (snd (calculate ''fifo'' two_chains [1, 0] Map.empty 0)))
          = [''base'', ''ethereum'']"
    by code_simp
qed

text \<open>
  C7, amended: \<open>calculate\<close> on a permutation of the input that leaves the transactions
  of equal timestamp in their order (every permutation, when the timestamps are pairwise
  distinct) returns the same summary, by_chain, by_token and annotated transactions,
  leaves the caller's records in the same state, and reports the same set of chains in
  \<open>chains_queried\<close> (their order follows the input).
\<close>

theorem permutation_keeping_ties:
  assumes "mset input' = mset input"
    and "\<And>k. filter (\<lambda>t. tx_timestamp (th t) = k) input'
               = filter (\<lambda>t. tx_timestamp (th t) = k) input"
  shows "fst (calculate method th input' prices now) = fst (calculate method th input prices now)
    \<and> summary (snd (calculate method th input' prices now))
      = summary (snd (calculate method th input prices now))
    \<and> by_chain (snd (calculate method th input' prices now))
      = by_chain (snd (calculate method th input prices now))
    \<and> by_token (snd (calculate method th input' prices now))
      = by_token (snd (calculate method th input prices now))
    \<and> transactions (snd (calculate method th input' prices now))
      = transactions (snd (calculate method th input prices now))
    \<and> last_updated (metadata (snd (calculate method th input' prices now)))
      = last_updated (metadata (snd (calculate method th input prices now)))
    \<and> data_sources (metadata (snd (calculate method th input' prices now)))
      = data_sources (metadata (snd (calculate method th input prices now)))
    \<and> set (chains_queried (metadata (snd (calculate method th input' prices now))))
      = set (chains_queried (metadata (snd (calculate method th input prices now))))"
proof -
  have s: "sort_key (\<lambda>t. tx_timestamp (th t)) input'
             = sort_key (\<lambda>t. tx_timestamp (th t)) input"
    using assms by (rule sort_key_same_ties)
  have "set input' = set input"
    using assms(1) by (metis set_mset_mset)
  with s show ?thesis
    by (simp add: calculate_def Let_def)
qed

theorem permutation_keeping_ties_witness:
  "mset [1, 0] = mset [0, 1 :: nat]
   \<and> (\<forall>k. filter (\<lambda>t. tx_timestamp (two_chains t) = k) [1, 0]
           = filter (\<lambda>t. tx_timestamp (two_chains t) = k) [0, 1])
   \<and> summary (snd (calculate ''lifo'' two_chains [1, 0] Map.empty 0))
     = summary (snd (calculate ''lifo'' two_chains [0, 1] Map.empty 0))
   \<and> by_token (snd (calculate ''lifo'' two_chains [1, 0] Map.empty 0))
     = by_token (snd (calculate ''lifo'' two_chains [0, 1] Map.empty 0))
   \<and> transactions (snd (calculate ''lifo'' two_chains [1, 0] Map.empty 0))
     = transactions (snd (calculate ''lifo'' two_chains [0, 1] Map.empty 0))"
proof -
  have p: "mset [1, 0] = mset [0, 1 :: nat]"
    by simp
  have d: "filter (\<lambda>t. tx_timestamp (two_chains t) = k) [1, 0]
             = filter (\<lambda>t. tx_timestamp (two_chains t) = k) [0, 1]" for k
    by (simp add: two_chains_def store_of_def mk_tx_def)
  from p d permutation_keeping_ties [OF p d, of "''lifo''" Map.empty 0]
  show ?thesis
    by simp
qed

subsection \<open>Invariants of the replay\<close>

lemma positions_of_update:
  "positions_of (s\<lparr>positions := AList.update k v (positions s)\<rparr>) k'
     = (if k' = k then v else positions_of s k')"
  by (simp add: positions_of_def update_conv')

lemma positions_of_cong: "positions s' = positions s \<Longrightarrow> positions_of s' = positions_of s"
  by (simp add: positions_of_def fun_eq_iff)

lemma wf_init: "wf (init th)"
  by (simp add: wf_def init_def positions_of_def)

lemma positions_of_addPosition:
  "positions_of (addPosition key t s) k
     = (if k = key then positions_of s key @ [length (heap s)] else positions_of s k)"
  by (simp add: addPosition_def Let_def positions_of_def update_conv')

lemma heap_addPosition:
  "heap (addPosition key t s)
     = heap s @ [\<lparr> pos_quantity = tx_quantity (txs s t), pos_price_usd = tx_price_usd (txs s t),
                   pos_timestamp = tx_timestamp (txs s t), pos_tx_hash = tx_hash (txs s t) \<rparr>]"
  by (simp add: addPosition_def Let_def)

lemma wf_addPosition: "wf s \<Longrightarrow> wf (addPosition key t s)"
  unfolding wf_def by (auto simp add: positions_of_addPosition heap_addPosition less_Suc_eq)

lemma length_sell_loop [simp]: "length (fst (sell_loop h rs rem c)) = length h"
  by (induction rs arbitrary: h rem c) (simp_all add: Let_def)

lemma length_orderPositions: "length h \<le> length (fst (orderPositions method h ps))"
  by (simp add: orderPositions_def Let_def)

lemma heap_removePosition:
  "heap (removePosition method key t s)
     = fst (sell_loop (fst (orderPositions method (heap s) (positions_of s key)))
                      (snd (orderPositions method (heap s) (positions_of s key)))
                      (tx_quantity (txs s t)) (Fin 0))"
  by (simp add: removePosition_def Let_def split: prod.splits)

lemma positions_of_removePosition:
  "positions_of (removePosition method key t s) k
     = (if k = key
        then filter (\<lambda>r. jgt (pos_quantity (heap (removePosition method key t s) ! r)) (Fin 0))
               (positions_of s key)
        else positions_of s k)"
  by (simp add: removePosition_def Let_def positions_of_def update_conv' split: prod.splits)

lemma length_heap_removePosition: "length (heap s) \<le> length (heap (removePosition method key t s))"
  by (simp add: heap_removePosition length_orderPositions)

lemma wf_removePosition: "wf s \<Longrightarrow> wf (removePosition method key t s)"
  unfolding wf_def using length_heap_removePosition [of s "method" key t]
  by (auto simp add: positions_of_removePosition) (meson less_le_trans)+

lemma wf_processTransaction: "wf s \<Longrightarrow> wf (processTransaction method t s)"
  by (simp add: processTransaction_def Let_def wf_addPosition wf_removePosition)

lemma wf_replay: "wf s \<Longrightarrow> wf (replay method ts s)"
  by (induction ts rule: rev_induct) (simp_all add: replay_snoc wf_processTransaction)

lemma nonneg_iff: "nonneg v \<longleftrightarrow> (\<exists>q. v = Fin q \<and> 0 \<le> q)"
  by (cases v) auto

lemma sell_loop_nonneg:
  "lots_nonneg h \<Longrightarrow> \<forall>r \<in> set rs. r < length h \<Longrightarrow> nonneg rem
     \<Longrightarrow> lots_nonneg (fst (sell_loop h rs rem c))"
proof (induction rs arbitrary: h rem c)
  case Nil
  then show ?case by simp
next
  case (Cons r rs)
  from Cons.prems obtain b where b: "rem = Fin b" "0 \<le> b"
    by (auto simp add: nonneg_iff)
  from Cons.prems have "nonneg (pos_quantity (h ! r))"
    by (simp add: lots_nonneg_def)
  then obtain a where a: "pos_quantity (h ! r) = Fin a" "0 \<le> a"
    by (auto simp add: nonneg_iff)
  show ?case
  proof (cases "0 < b")
    case False
    with b Cons.prems show ?thesis by simp
  next
    case True
    let ?h = "h[r := (h ! r)\<lparr>pos_quantity := Fin (a - min a b)\<rparr>]"
    have "lots_nonneg ?h"
      using Cons.prems(1) a b unfolding lots_nonneg_def
      by (auto dest!: set_update_subset_insert [THEN subsetD])
    moreover have "\<forall>r \<in> set rs. r < length ?h"
      using Cons.prems(2) by simp
    moreover have "nonneg (Fin (b - min a b))"
      by simp
    ultimately have "lots_nonneg (fst (sell_loop ?h rs (Fin (b - min a b))
                       (jadd c (jmul (Fin (min a b)) (pos_price_usd (h ! r))))))"
      by (rule Cons.IH)
    moreover have "jmin (Fin a) (Fin b) = Fin (min a b)"
      by (simp add: min_def)
    ultimately show ?thesis
      using True a b by (simp add: Let_def jsub_def)
  qed
qed

lemma orderPositions_nonneg:
  "lots_nonneg h \<Longrightarrow> \<forall>r \<in> set ps. r < length h
     \<Longrightarrow> lots_nonneg (fst (orderPositions method h ps))"
  unfolding lots_nonneg_def orderPositions_def Let_def by auto

lemma orderPositions_in_range:
  "\<forall>r \<in> set ps. r < length h
     \<Longrightarrow> \<forall>r \<in> set (snd (orderPositions method h ps)). r < length (fst (orderPositions method h ps))"
  unfolding orderPositions_def Let_def by auto

lemma lots_nonneg_processTransaction:
  assumes "wf s" "lots_nonneg (heap s)" "nonneg (tx_quantity (txs s t))"
  shows "lots_nonneg (heap (processTransaction method t s))"
proof -
  let ?key = "getTokenKey (tx_chain (txs s t)) (tx_token_symbol (txs s t)) (tx_token_address (txs s t))"
  have r: "\<forall>r \<in> set (positions_of s ?key). r < length (heap s)"
    using assms(1) by (simp add: wf_def)
  have a: "lots_nonneg (heap (addPosition ?key t s))"
    using assms(2,3) by (simp add: heap_addPosition lots_nonneg_def)
  have b: "lots_nonneg (heap (removePosition method ?key t s))"
    unfolding heap_removePosition
    using assms(2,3) r by (intro sell_loop_nonneg orderPositions_nonneg orderPositions_in_range)
  from a b assms(2) show ?thesis
    by (simp add: processTransaction_def Let_def)
qed

lemma tx_quantity_replay: "tx_quantity (txs (replay method ts s) t) = tx_quantity (txs s t)"
proof -
  from txs_replay [of "method" ts s]
  have "txs (replay method ts s) t
          = (txs s t)\<lparr>tx_realized_pnl_usd := tx_realized_pnl_usd (txs (replay method ts s) t)\<rparr>"
    by blast
  then show ?thesis
    by (metis Transaction.select_convs(7) Transaction.surjective Transaction.update_convs(10))
qed

lemma lots_nonneg_replay:
  assumes "wf s" "lots_nonneg (heap s)" "\<forall>t \<in> set ts. nonneg (tx_quantity (txs s t))"
  shows "lots_nonneg (heap (replay method ts s))"
  using assms(3)
proof (induction ts rule: rev_induct)
  case Nil
  with assms show ?case by simp
next
  case (snoc x ts)
  have "lots_nonneg (heap (processTransaction method x (replay method ts s)))"
    using snoc assms(1) by (intro lots_nonneg_processTransaction wf_replay) (simp_all add: tx_quantity_replay)
  then show ?case
    by (simp add: replay_snoc)
qed

lemma nonneg_foldl_jadd:
  "nonneg acc \<Longrightarrow> \<forall>r \<in> set ps. nonneg (f r) \<Longrightarrow> nonneg (foldl (\<lambda>sum r. jadd sum (f r)) acc ps)"
proof (induction ps arbitrary: acc)
  case Nil
  then show ?case by simp
next
  case (Cons r ps)
  then have "nonneg (jadd acc (f r))"
    by (auto simp add: nonneg_iff)
  with Cons show ?case by simp
qed

text \<open>
  C6. When the quantities of the transactions are non-negative, then after any sequence
  of transactions has been processed (so at every point of a replay) every \<open>Position\<close>
  object has a non-negative quantity, in particular every open lot of every key, and the
  sum of the open lots' quantities of every key is non-negative, whatever the disposals
  asked for.
\<close>

theorem lot_quantities_never_negative:
  assumes "\<forall>t \<in> set ts. nonneg (tx_quantity (th t))"
  shows "(let s = replay method ts (init th)
          in (\<forall>p \<in> set (heap s). nonneg (pos_quantity p))
           \<and> (\<forall>key. (\<forall>r \<in> set (positions_of s key). nonneg (pos_quantity (heap s ! r)))
                    \<and> nonneg (total_quantity (heap s) (positions_of s key))))"
proof -
  let ?s = "replay method ts (init th)"
  have w: "wf ?s"
    by (intro wf_replay wf_init)
  have n: "lots_nonneg (heap ?s)"
    using assms by (intro lots_nonneg_replay wf_init) (simp_all add: init_def lots_nonneg_def)
  have k: "\<forall>r \<in> set (positions_of ?s key). nonneg (pos_quantity (heap ?s ! r))" for key
    using w n by (simp add: wf_def lots_nonneg_def)
  have "nonneg (total_quantity (heap ?s) (positions_of ?s key))" for key
    unfolding total_quantity_def using k [of key] by (intro nonneg_foldl_jadd) simp_all
  with k n show ?thesis
    by (simp add: Let_def lots_nonneg_def)
qed

theorem lot_quantities_never_negative_witness:
  "nonneg (tx_quantity (oversell 0))
   \<and> nonneg (tx_quantity (oversell 1))
   \<and> nonneg (total_quantity (heap (replay ''fifo'' [0, 1] (init oversell)))
               (positions_of (replay ''fifo'' [0, 1] (init oversell)) ''ethereum:eth:0x0''))
   \<and> total_quantity (heap (replay ''fifo'' [0, 1] (init oversell)))
               (positions_of (replay ''fifo'' [0, 1] (init oversell)) ''ethereum:eth:0x0'') = Fin 0"
proof -
  have h: "\<forall>t \<in> set [0, 1]. nonneg (tx_quantity (oversell t))"
    by (simp add: oversell_def store_of_def mk_tx_def)
  have e: "total_quantity (heap (replay ''fifo'' [0, 1] (init oversell)))
               (positions_of (replay ''fifo'' [0, 1] (init oversell)) ''ethereum:eth:0x0'') = Fin 0"
    by code_simp
  from h have "nonneg (tx_quantity (oversell 0))" "nonneg (tx_quantity (oversell 1))"
    by simp_all
  with lot_quantities_never_negative [OF h, of "''fifo''", unfolded Let_def] e show ?thesis
    by blast
qed


subsection \<open>The cost basis of a disposal\<close>

lemma fst_consumed: "fst ` set (consumed h rs rem) \<subseteq> set rs"
  by (induction rs arbitrary: rem) (auto simp add: Let_def)

lemma consumed_cong:
  "\<forall>r \<in> set rs. pos_quantity (h' ! r) = pos_quantity (h ! r) \<Longrightarrow> consumed h' rs rem = consumed h rs rem"
  by (induction rs arbitrary: rem) (simp_all add: Let_def)

lemma cost_from_cong:
  "\<forall>r. pos_price_usd (h' ! r) = pos_price_usd (h ! r) \<Longrightarrow> cost_from h' c lots = cost_from h c lots"
  by (simp add: cost_from_def)

lemma sell_loop_consumed:
  assumes "distinct rs" "\<forall>r \<in> set rs. r < length h"
  shows "snd (snd (sell_loop h rs rem c)) = cost_from h c (consumed h rs rem)
       \<and> (\<forall>(r, q) \<in> set (consumed h rs rem).
             fst (sell_loop h rs rem c) ! r = (h ! r)\<lparr>pos_quantity := jsub (pos_quantity (h ! r)) q\<rparr>)
       \<and> (\<forall>r. r \<notin> fst ` set (consumed h rs rem) \<longrightarrow> fst (sell_loop h rs rem c) ! r = h ! r)"
  using assms
proof (induction rs arbitrary: h rem c)
  case Nil
  then show ?case by (simp add: cost_from_def)
next
  case (Cons r rs)
  show ?case
  proof (cases "jgt rem (Fin 0)")
    case False
    then show ?thesis by (simp add: cost_from_def)
  next
    case True
    define q where "q = jmin (pos_quantity (h ! r)) rem"
    define h1 where "h1 = h[r := (h ! r)\<lparr>pos_quantity := jsub (pos_quantity (h ! r)) q\<rparr>]"
    define c1 where "c1 = jadd c (jmul q (pos_price_usd (h ! r)))"
    have step: "sell_loop h (r # rs) rem c = sell_loop h1 rs (jsub rem q) c1"
      using True by (simp add: Let_def q_def h1_def c1_def)
    have cons: "consumed h (r # rs) rem = (r, q) # consumed h rs (jsub rem q)"
      using True by (simp add: Let_def q_def)
    have rr: "r \<notin> set rs" "r < length h" "distinct rs" "\<forall>r \<in> set rs. r < length h1"
      using Cons.prems by (simp_all add: h1_def)
    have same: "\<forall>x \<in> set rs. h1 ! x = h ! x"
    proof
      fix x assume "x \<in> set rs"
      with rr(1) have "r \<noteq> x" by auto
      then show "h1 ! x = h ! x" by (simp add: h1_def)
    qed
    have price: "\<forall>x. pos_price_usd (h1 ! x) = pos_price_usd (h ! x)"
      using rr(2) by (simp add: h1_def nth_list_update)
    have c1: "consumed h1 rs (jsub rem q) = consumed h rs (jsub rem q)"
      using same by (intro consumed_cong) simp
    note IH = Cons.IH [OF rr(3) rr(4), of "jsub rem q" c1, unfolded c1 cost_from_cong [OF price]]
    have notin: "r \<notin> fst ` set (consumed h rs (jsub rem q))"
      using fst_consumed [of h rs "jsub rem q"] rr(1) by blast
    have A: "snd (snd (sell_loop h (r # rs) rem c)) = cost_from h c (consumed h (r # rs) rem)"
      unfolding step cons using IH by (simp add: cost_from_def c1_def)
    have hr: "fst (sell_loop h1 rs (jsub rem q) c1) ! r = h1 ! r"
      using IH notin by blast
    have B: "\<forall>(x, y) \<in> set (consumed h (r # rs) rem).
               fst (sell_loop h (r # rs) rem c) ! x = (h ! x)\<lparr>pos_quantity := jsub (pos_quantity (h ! x)) y\<rparr>"
      unfolding step cons
    proof (clarsimp, intro conjI ballI)
      show "fst (sell_loop h1 rs (jsub rem q) c1) ! r = (h ! r)\<lparr>pos_quantity := jsub (pos_quantity (h ! r)) q\<rparr>"
        using hr rr(2) by (simp add: h1_def)
    next
      fix z assume z: "z \<in> set (consumed h rs (jsub rem q))"
      obtain x y where xy: "z = (x, y)" by (cases z)
      with z have "x \<in> set rs"
        using fst_consumed [of h rs "jsub rem q"] by force
      with same have "h1 ! x = h ! x" by simp
      moreover from IH z xy
      have "fst (sell_loop h1 rs (jsub rem q) c1) ! x = (h1 ! x)\<lparr>pos_quantity := jsub (pos_quantity (h1 ! x)) y\<rparr>"
        by blast
      ultimately show "case z of (x, y) \<Rightarrow> fst (sell_loop h1 rs (jsub rem q) c1) ! x
                         = (h ! x)\<lparr>pos_quantity := jsub (pos_quantity (h ! x)) y\<rparr>"
        using xy by simp
    qed
    have C: "\<forall>x. x \<notin> fst ` set (consumed h (r # rs) rem) \<longrightarrow> fst (sell_loop h (r # rs) rem c) ! x = h ! x"
      unfolding step cons
    proof (intro allI impI)
      fix x assume x: "x \<notin> fst ` set ((r, q) # consumed h rs (jsub rem q))"
      then have "x \<noteq> r" "x \<notin> fst ` set (consumed h rs (jsub rem q))" by auto
      with IH have "fst (sell_loop h1 rs (jsub rem q) c1) ! x = h1 ! x" by blast
      with \<open>x \<noteq> r\<close> show "fst (sell_loop h1 rs (jsub rem q) c1) ! x = h ! x"
        by (simp add: h1_def)
    qed
    from A B C show ?thesis by blast
  qed
qed

lemma orderPositions_distinct:
  "distinct ps \<Longrightarrow> distinct (snd (orderPositions method h ps))"
  by (simp add: orderPositions_def Let_def)

lemma realized_removePosition:
  "tx_realized_pnl_usd (txs (removePosition method key t s) t)
     = Some (jsub (jmul (tx_quantity (txs s t)) (tx_price_usd (txs s t)))
              (snd (snd (sell_loop (fst (orderPositions method (heap s) (positions_of s key)))
                      (snd (orderPositions method (heap s) (positions_of s key)))
                      (tx_quantity (txs s t)) (Fin 0)))))"
  by (simp add: removePosition_def Let_def split: prod.splits)

text \<open>
  C2. For a disposal processed at any point of a replay, under any method, the
  \<open>realized_pnl_usd\<close> written on the transaction is \<open>quantity * price_usd\<close> minus the sum,
  over the lots selected from the ordered positions, of quantity consumed times unit
  cost; and the quantity consumed from a selected lot is what the disposal takes off that
  lot's quantity, its unit cost being left as it was.
\<close>

theorem realized_pnl_is_proceeds_minus_consumed_cost:
  "(let s = replay method ts (init th);
        tx = txs s t;
        key = getTokenKey (tx_chain tx) (tx_token_symbol tx) (tx_token_address tx);
        (h, orderedPositions) = orderPositions method (heap s) (positions_of s key);
        lots = consumed h orderedPositions (tx_quantity tx);
        s' = processTransaction method t s
    in tx_type tx = Sell \<or> tx_type tx = TransferOut \<longrightarrow>
         tx_realized_pnl_usd (txs s' t)
           = Some (jsub (jmul (tx_quantity tx) (tx_price_usd tx)) (cost_from h (Fin 0) lots))
         \<and> (\<forall>(r, q) \<in> set lots.
               pos_quantity (heap s' ! r) = jsub (pos_quantity (h ! r)) q
               \<and> pos_price_usd (heap s' ! r) = pos_price_usd (h ! r)))"
proof -
  define s where "s = replay method ts (init th)"
  define key where "key = getTokenKey (tx_chain (txs s t)) (tx_token_symbol (txs s t)) (tx_token_address (txs s t))"
  define h where "h = fst (orderPositions method (heap s) (positions_of s key))"
  define ordered where "ordered = snd (orderPositions method (heap s) (positions_of s key))"
  have w: "wf s"
    unfolding s_def by (intro wf_replay wf_init)
  then have d: "distinct ordered" and r: "\<forall>r \<in> set ordered. r < length h"
    unfolding ordered_def h_def wf_def
    by (simp_all add: orderPositions_distinct orderPositions_in_range)
  note L = sell_loop_consumed [OF d r, of "tx_quantity (txs s t)" "Fin 0"]
  have p: "processTransaction method t s = removePosition method key t s"
    if "tx_type (txs s t) = Sell \<or> tx_type (txs s t) = TransferOut"
    using that by (auto simp add: processTransaction_def Let_def key_def)
  have hp: "heap (removePosition method key t s) = fst (sell_loop h ordered (tx_quantity (txs s t)) (Fin 0))"
    by (simp add: heap_removePosition h_def ordered_def)
  have rp: "tx_realized_pnl_usd (txs (removePosition method key t s) t)
     = Some (jsub (jmul (tx_quantity (txs s t)) (tx_price_usd (txs s t)))
              (snd (snd (sell_loop h ordered (tx_quantity (txs s t)) (Fin 0)))))"
    by (simp add: realized_removePosition h_def ordered_def)
  have "tx_type (txs s t) = Sell \<or> tx_type (txs s t) = TransferOut \<longrightarrow>
         tx_realized_pnl_usd (txs (processTransaction method t s) t)
           = Some (jsub (jmul (tx_quantity (txs s t)) (tx_price_usd (txs s t)))
                (cost_from h (Fin 0) (consumed h ordered (tx_quantity (txs s t)))))
         \<and> (\<forall>(r, q) \<in> set (consumed h ordered (tx_quantity (txs s t))).
               pos_quantity (heap (processTransaction method t s) ! r) = jsub (pos_quantity (h ! r)) q
               \<and> pos_price_usd (heap (processTransaction method t s) ! r) = pos_price_usd (h ! r))"
  proof (intro impI)
    assume ty: "tx_type (txs s t) = Sell \<or> tx_type (txs s t) = TransferOut"
    show "tx_realized_pnl_usd (txs (processTransaction method t s) t)
           = Some (jsub (jmul (tx_quantity (txs s t)) (tx_price_usd (txs s t)))
                (cost_from h (Fin 0) (consumed h ordered (tx_quantity (txs s t)))))
         \<and> (\<forall>(r, q) \<in> set (consumed h ordered (tx_quantity (txs s t))).
               pos_quantity (heap (processTransaction method t s) ! r) = jsub (pos_quantity (h ! r)) q
               \<and> pos_price_usd (heap (processTransaction method t s) ! r) = pos_price_usd (h ! r))"
      unfolding p [OF ty] hp rp using L by auto
  qed
  then show ?thesis
    unfolding Let_def s_def [symmetric] key_def [symmetric]
    by (simp add: split_beta h_def ordered_def)
qed

theorem realized_pnl_is_proceeds_minus_consumed_cost_witness:
  "(let s = replay ''avg'' [0, 1] (init regression);
        (h, orderedPositions) = orderPositions ''avg'' (heap s) (positions_of s ''ethereum:eth:0x0'');
        s' = processTransaction ''avg'' 2 s
    in tx_type (txs s 2) = Sell
       \<and> consumed h orderedPositions (tx_quantity (txs s 2)) = [(2, Fin 1)]
       \<and> cost_from h (Fin 0) [(2, Fin 1)] = Fin (5600 / 3)
       \<and> tx_realized_pnl_usd (txs s' 2) = Some (jsub (jmul (Fin 1) (Fin 2200)) (Fin (5600 / 3)))
       \<and> pos_quantity (h ! 2) = Fin 2
       \<and> pos_quantity (heap s' ! 2) = jsub (Fin 2) (Fin 1))"
proof -
  define s where "s = replay ''avg'' [0, 1] (init regression)"
  define h where "h = fst (orderPositions ''avg'' (heap s) (positions_of s ''ethereum:eth:0x0''))"
  define ordered where "ordered = snd (orderPositions ''avg'' (heap s) (positions_of s ''ethereum:eth:0x0''))"
  have ty: "tx_type (txs s 2) = Sell"
    unfolding s_def by code_simp
  have key: "getTokenKey (tx_chain (txs s 2)) (tx_token_symbol (txs s 2)) (tx_token_address (txs s 2))
               = ''ethereum:eth:0x0''"
    unfolding s_def by code_simp
  have q: "tx_quantity (txs s 2) = Fin 1" and p: "tx_price_usd (txs s 2) = Fin 2200"
    unfolding s_def by code_simp+
  have lots: "consumed h ordered (Fin 1) = [(2, Fin 1)]"
    unfolding s_def h_def ordered_def by code_simp
  have cost: "cost_from h (Fin 0) [(2, Fin 1)] = Fin (5600 / 3)"
    unfolding s_def h_def by code_simp
  have h2: "pos_quantity (h ! 2) = Fin 2"
    unfolding s_def h_def by code_simp
  from realized_pnl_is_proceeds_minus_consumed_cost [of "''avg''" "[0, 1]" regression 2] ty
  have "tx_realized_pnl_usd (txs (processTransaction ''avg'' 2 s) 2)
          = Some (jsub (jmul (Fin 1) (Fin 2200)) (Fin (5600 / 3)))
        \<and> pos_quantity (heap (processTransaction ''avg'' 2 s) ! 2) = jsub (Fin 2) (Fin 1)"
    unfolding Let_def split_beta s_def [symmetric] key h_def [symmetric] ordered_def [symmetric]
      q p lots cost
    by (simp add: h2)
  with ty lots cost h2 q show ?thesis
    unfolding Let_def split_beta s_def [symmetric] h_def [symmetric] ordered_def [symmetric]
    by simp
qed

subsection \<open>An unrecognized method\<close>

text \<open>
  C8, as stated: a method that is none of \<open>fifo\<close>, \<open>lifo\<close>, \<open>avg\<close> is refused with an
  error. The calculator has no error to raise; with the method \<open>hifo\<close> the regression
  scenario returns a realized P&L of 400.
\<close>

theorem unknown_method_counterexample:
  "''hifo'' \<notin> {''fifo'', ''lifo'', ''avg''}
   \<and> map tx_realized_pnl_usd
       (transactions (snd (calculate ''hifo'' regression [0, 1, 2] Map.empty 0)))
     = [None, None, Some (Fin 400)]"
proof (rule conjI)
  show "''hifo'' \<notin> {''fifo'', ''lifo'', ''avg''}"
    by simp
  show "map tx_realized_pnl_usd
       (transactions (snd (calculate ''hifo'' regression [0, 1, 2] Map.empty 0)))
     = [None, None, Some (Fin 400)]"
    by code_simp
qed

text \<open>
  What a disposal does in terms of the ordered lots, in any state that satisfies the
  invariant; the lots a disposal takes are a front part of the ordered lots; and every
  sell that \<open>calculate\<close> returns carries a realized P&L.
\<close>

lemma disposal_from_ordered_lots:
  assumes "wf s" and "tx_type (txs s t) = Sell \<or> tx_type (txs s t) = TransferOut"
  shows "(let tx = txs s t;
              key = getTokenKey (tx_chain tx) (tx_token_symbol tx) (tx_token_address tx);
              (h, orderedPositions) = orderPositions method (heap s) (positions_of s key);
              lots = consumed h orderedPositions (tx_quantity tx);
              s' = processTransaction method t s
          in tx_realized_pnl_usd (txs s' t)
               = Some (jsub (jmul (tx_quantity tx) (tx_price_usd tx)) (cost_from h (Fin 0) lots))
             \<and> (\<forall>(r, q) \<in> set lots.
                   pos_quantity (heap s' ! r) = jsub (pos_quantity (h ! r)) q
                   \<and> pos_price_usd (heap s' ! r) = pos_price_usd (h ! r)))"
proof -
  define key where "key = getTokenKey (tx_chain (txs s t)) (tx_token_symbol (txs s t)) (tx_token_address (txs s t))"
  define h where "h = fst (orderPositions method (heap s) (positions_of s key))"
  define ordered where "ordered = snd (orderPositions method (heap s) (positions_of s key))"
  from assms(1) have d: "distinct ordered" and r: "\<forall>r \<in> set ordered. r < length h"
    unfolding ordered_def h_def wf_def
    by (simp_all add: orderPositions_distinct orderPositions_in_range)
  note L = sell_loop_consumed [OF d r, of "tx_quantity (txs s t)" "Fin 0"]
  have p: "processTransaction method t s = removePosition method key t s"
    using assms(2) by (auto simp add: processTransaction_def Let_def key_def)
  have hp: "heap (removePosition method key t s)
              = fst (sell_loop h ordered (tx_quantity (txs s t)) (Fin 0))"
    by (simp add: heap_removePosition h_def ordered_def)
  have rp: "tx_realized_pnl_usd (txs (removePosition method key t s) t)
     = Some (jsub (jmul (tx_quantity (txs s t)) (tx_price_usd (txs s t)))
              (snd (snd (sell_loop h ordered (tx_quantity (txs s t)) (Fin 0)))))"
    by (simp add: realized_removePosition h_def ordered_def)
  have "tx_realized_pnl_usd (txs (processTransaction method t s) t)
           = Some (jsub (jmul (tx_quantity (txs s t)) (tx_price_usd (txs s t)))
                (cost_from h (Fin 0) (consumed h ordered (tx_quantity (txs s t)))))
         \<and> (\<forall>(r, q) \<in> set (consumed h ordered (tx_quantity (txs s t))).
               pos_quantity (heap (processTransaction method t s) ! r) = jsub (pos_quantity (h ! r)) q
               \<and> pos_price_usd (heap (processTransaction method t s) ! r) = pos_price_usd (h ! r))"
    unfolding p hp rp using L by auto
  then show ?thesis
    unfolding Let_def key_def [symmetric]
    by (simp add: split_beta h_def ordered_def)
qed

lemma map_fst_consumed:
  "map fst (consumed h rs rem) = take (length (consumed h rs rem)) rs"
  by (induction rs arbitrary: rem) (simp_all add: Let_def)

lemma calculate_sells_annotated:
  assumes "tx \<in> set (transactions (snd (calculate method th input prices now)))"
    and "tx_type tx = Sell"
  shows "tx_realized_pnl_usd tx \<noteq> None"
proof -
  define sorted where "sorted = sort_key (\<lambda>t. tx_timestamp (th t)) input"
  define s where "s = replay method sorted (init th)"
  from assms(1) obtain t where t: "t \<in> set sorted"
    and tx: "tx = (txs s t)\<lparr>tx_realized_pnl_usd :=
                    (if tx_type (txs s t) = Sell then tx_realized_pnl_usd (txs s t) else None)\<rparr>"
    by (auto simp add: calculate_def Let_def calculateUnrealizedPnL_def sorted_def s_def)
  from tx assms(2) have ty: "tx_type (txs s t) = Sell"
    by simp
  note R = txs_replay [of "method" sorted "init th", folded s_def]
  from R obtain w where "txs s t = (txs (init th) t)\<lparr>tx_realized_pnl_usd := w\<rparr>"
    by blast
  with ty have "tx_type (txs (init th) t) = Sell"
    by (metis Transaction.select_convs(4) Transaction.surjective Transaction.update_convs(10))
  with R t have "tx_realized_pnl_usd (txs s t) \<noteq> None"
    by blast
  with tx ty show ?thesis
    by simp
qed

text \<open>
  C8, amended: with a method that is none of \<open>fifo\<close>, \<open>lifo\<close>, \<open>avg\<close> the engine raises no
  error. \<open>orderPositions\<close> returns the array it was given, with the same objects in the
  same (insertion) order; a disposal processed at any point of a replay takes its lots
  from the front of the key's array, in that order, writes \<open>quantity * price_usd\<close> minus
  their cost as its realized P&L and takes the quantities off those lots; and every sell
  in the transactions \<open>calculate\<close> returns is annotated with a realized P&L.
\<close>

theorem unknown_method_insertion_order:
  assumes "method \<notin> {''fifo'', ''lifo'', ''avg''}"
  shows "orderPositions method h ps = (h, ps)
    \<and> (let s = replay method ts (init th);
            tx = txs s t;
            key = getTokenKey (tx_chain tx) (tx_token_symbol tx) (tx_token_address tx);
            lots = consumed (heap s) (positions_of s key) (tx_quantity tx);
            s' = processTransaction method t s
        in tx_type tx = Sell \<or> tx_type tx = TransferOut \<longrightarrow>
             map fst lots = take (length lots) (positions_of s key)
             \<and> tx_realized_pnl_usd (txs s' t)
                 = Some (jsub (jmul (tx_quantity tx) (tx_price_usd tx))
                           (cost_from (heap s) (Fin 0) lots))
             \<and> (\<forall>(r, q) \<in> set lots.
                   pos_quantity (heap s' ! r) = jsub (pos_quantity (heap s ! r)) q))
    \<and> (\<forall>tx \<in> set (transactions (snd (calculate method store input prices now))).
          tx_type tx = Sell \<longrightarrow> tx_realized_pnl_usd tx \<noteq> None)"
proof (intro conjI)
  show o: "orderPositions method h ps = (h, ps)" for h ps
    using assms by (simp add: orderPositions_def)
  show "\<forall>tx \<in> set (transactions (snd (calculate method store input prices now))).
          tx_type tx = Sell \<longrightarrow> tx_realized_pnl_usd tx \<noteq> None"
    using calculate_sells_annotated [of _ "method" store input prices now] by blast
  have w: "wf (replay method ts (init th))"
    by (intro wf_replay wf_init)
  show "(let s = replay method ts (init th);
            tx = txs s t;
            key = getTokenKey (tx_chain tx) (tx_token_symbol tx) (tx_token_address tx);
            lots = consumed (heap s) (positions_of s key) (tx_quantity tx);
            s' = processTransaction method t s
        in tx_type tx = Sell \<or> tx_type tx = TransferOut \<longrightarrow>
             map fst lots = take (length lots) (positions_of s key)
             \<and> tx_realized_pnl_usd (txs s' t)
                 = Some (jsub (jmul (tx_quantity tx) (tx_price_usd tx))
                           (cost_from (heap s) (Fin 0) lots))
             \<and> (\<forall>(r, q) \<in> set lots.
                   pos_quantity (heap s' ! r) = jsub (pos_quantity (heap s ! r)) q))"
    unfolding Let_def
  proof (intro impI)
    let ?s = "replay method ts (init th)"
    assume ty: "tx_type (txs ?s t) = Sell \<or> tx_type (txs ?s t) = TransferOut"
    from disposal_from_ordered_lots [OF w ty, of "method", unfolded Let_def o split_conv]
      map_fst_consumed
    show "map fst (consumed (heap ?s) (positions_of ?s (getTokenKey (tx_chain (txs ?s t))
                (tx_token_symbol (txs ?s t)) (tx_token_address (txs ?s t)))) (tx_quantity (txs ?s t)))
          = take (length (consumed (heap ?s) (positions_of ?s (getTokenKey (tx_chain (txs ?s t))
                (tx_token_symbol (txs ?s t)) (tx_token_address (txs ?s t)))) (tx_quantity (txs ?s t))))
              (positions_of ?s (getTokenKey (tx_chain (txs ?s t))
                (tx_token_symbol (txs ?s t)) (tx_token_address (txs ?s t))))
        \<and> tx_realized_pnl_usd (txs (processTransaction method t ?s) t)
           = Some (jsub (jmul (tx_quantity (txs ?s t)) (tx_price_usd (txs ?s t)))
                (cost_from (heap ?s) (Fin 0)
                  (consumed (heap ?s) (positions_of ?s (getTokenKey (tx_chain (txs ?s t))
                (tx_token_symbol (txs ?s t)) (tx_token_address (txs ?s t)))) (tx_quantity (txs ?s t)))))
        \<and> (\<forall>(r, q) \<in> set (consumed (heap ?s) (positions_of ?s (getTokenKey (tx_chain (txs ?s t))
                (tx_token_symbol (txs ?s t)) (tx_token_address (txs ?s t)))) (tx_quantity (txs ?s t))).
               pos_quantity (heap (processTransaction method t ?s) ! r) = jsub (pos_quantity (heap ?s ! r)) q)"
      by auto
  qed
qed

theorem unknown_method_insertion_order_witness:
  "''hifo'' \<notin> {''fifo'', ''lifo'', ''avg''}
   \<and> orderPositions ''hifo'' two_lots [0, 1] = (two_lots, [0, 1])
   \<and> (let s = replay ''hifo'' [1, 0] (init regression);
           s' = processTransaction ''hifo'' 2 s
       in tx_type (txs s 2) = Sell
          \<and> positions_of s ''ethereum:eth:0x0'' = [0, 1]
          \<and> map pos_timestamp (heap s) = [2, 1]
          \<and> consumed (heap s) [0, 1] (tx_quantity (txs s 2)) = [(0, Fin 1)]
          \<and> tx_realized_pnl_usd (txs s' 2) = Some (Fin 200)
          \<and> pos_quantity (heap s' ! 0) = Fin 0)
   \<and> tx_realized_pnl_usd
         (txs (processTransaction ''fifo'' 2 (replay ''fifo'' [1, 0] (init regression))) 2)
       = Some (Fin 400)"
proof -
  define s where "s = replay ''hifo'' [1, 0] (init regression)"
  have m: "''hifo'' \<notin> {''fifo'', ''lifo'', ''avg''}"
    by simp
  have ty: "tx_type (txs s 2) = Sell"
    unfolding s_def by code_simp
  have key: "getTokenKey (tx_chain (txs s 2)) (tx_token_symbol (txs s 2)) (tx_token_address (txs s 2))
               = ''ethereum:eth:0x0''"
    unfolding s_def by code_simp
  have ps: "positions_of s ''ethereum:eth:0x0'' = [0, 1]"
    unfolding s_def by code_simp
  have ts: "map pos_timestamp (heap s) = [2, 1]"
    unfolding s_def by code_simp
  have lots: "consumed (heap s) [0, 1] (tx_quantity (txs s 2)) = [(0, Fin 1)]"
    unfolding s_def by code_simp
  have cost: "jsub (jmul (tx_quantity (txs s 2)) (tx_price_usd (txs s 2)))
                (cost_from (heap s) (Fin 0) [(0, Fin 1)]) = Fin 200"
    unfolding s_def by code_simp
  have q0: "jsub (pos_quantity (heap s ! 0)) (Fin 1) = Fin 0"
    unfolding s_def by code_simp
  have fifo: "tx_realized_pnl_usd
         (txs (processTransaction ''fifo'' 2 (replay ''fifo'' [1, 0] (init regression))) 2)
       = Some (Fin 400)"
    by code_simp
  note T = unknown_method_insertion_order [OF m, of two_lots "[0, 1]" "[1, 0]" regression 2]
  from T have o: "orderPositions ''hifo'' two_lots [0, 1] = (two_lots, [0, 1])"
    by blast
  from T ty have "tx_realized_pnl_usd (txs (processTransaction ''hifo'' 2 s) 2) = Some (Fin 200)
      \<and> pos_quantity (heap (processTransaction ''hifo'' 2 s) ! 0) = Fin 0"
    unfolding Let_def s_def [symmetric] key ps lots cost
    by (simp add: q0)
  with m o ty ps ts lots fifo show ?thesis
    unfolding Let_def s_def [symmetric] by simp
qed

subsection \<open>Disposals under \<open>fifo\<close> and \<open>lifo\<close>\<close>

lemma foldl_jadd_Fin:
  "\<forall>r \<in> set rs. nonneg (f r) \<Longrightarrow>
     foldl (\<lambda>sum r. jadd sum (f r)) (Fin a) rs = Fin (a + (\<Sum>r\<leftarrow>rs. real_of (f r)))"
proof (induction rs arbitrary: a)
  case Nil
  then show ?case by simp
next
  case (Cons r rs)
  then obtain q where "f r = Fin q"
    by (auto simp add: nonneg_iff)
  with Cons show ?case
    by (simp add: add.assoc)
qed

lemma total_quantity_sum:
  "\<forall>r \<in> set rs. nonneg (pos_quantity (h ! r)) \<Longrightarrow> total_quantity h rs = Fin (quantity_sum h rs)"
  unfolding total_quantity_def quantity_sum_def by (simp add: foldl_jadd_Fin)

lemma quantity_sum_nonneg:
  "\<forall>r \<in> set rs. nonneg (pos_quantity (h ! r)) \<Longrightarrow> 0 \<le> quantity_sum h rs"
  unfolding quantity_sum_def by (induction rs) (auto simp add: nonneg_iff)

lemma quantity_sum_cong:
  "\<forall>r \<in> set rs. pos_quantity (h' ! r) = pos_quantity (h ! r) \<Longrightarrow> quantity_sum h' rs = quantity_sum h rs"
  unfolding quantity_sum_def by (induction rs) auto

lemma quantity_sum_mset:
  "mset rs' = mset rs \<Longrightarrow> quantity_sum h rs' = quantity_sum h rs"
  unfolding quantity_sum_def by (metis mset_map sum_mset_sum_list)

lemma sell_loop_outside:
  assumes "distinct rs" "\<forall>r \<in> set rs. r < length h" "x \<notin> set rs"
  shows "fst (sell_loop h rs rem c) ! x = h ! x"
  using sell_loop_consumed [OF assms(1,2), of rem c] fst_consumed [of h rs rem] assms(3)
  by blast

lemma sell_loop_quantity_sum:
  assumes "distinct rs" "\<forall>r \<in> set rs. r < length h" "lots_nonneg h" "0 \<le> b"
  shows "quantity_sum (fst (sell_loop h rs (Fin b) c)) rs
           = quantity_sum h rs - min b (quantity_sum h rs)"
  using assms
proof (induction rs arbitrary: h b c)
  case Nil
  then show ?case by (simp add: quantity_sum_def)
next
  case (Cons r rs)
  from Cons.prems have "nonneg (pos_quantity (h ! r))"
    by (simp add: lots_nonneg_def)
  then obtain a where a: "pos_quantity (h ! r) = Fin a" "0 \<le> a"
    by (auto simp add: nonneg_iff)
  have nn: "\<forall>x \<in> set rs. nonneg (pos_quantity (h ! x))"
    using Cons.prems by (simp add: lots_nonneg_def)
  have S: "0 \<le> quantity_sum h rs"
    using nn by (rule quantity_sum_nonneg)
  have qs: "quantity_sum h (r # rs) = a + quantity_sum h rs"
    by (simp add: quantity_sum_def a)
  show ?case
  proof (cases "0 < b")
    case False
    with Cons.prems(4) have "b = 0" by simp
    with S a show ?thesis by (simp add: qs)
  next
    case True
    define h1 where "h1 = h[r := (h ! r)\<lparr>pos_quantity := Fin (a - min a b)\<rparr>]"
    define c1 where "c1 = jadd c (jmul (Fin (min a b)) (pos_price_usd (h ! r)))"
    have jm: "jmin (Fin a) (Fin b) = Fin (min a b)"
      by (simp add: min_def)
    have step: "sell_loop h (r # rs) (Fin b) c = sell_loop h1 rs (Fin (b - min a b)) c1"
      using True a by (simp add: Let_def jm jsub_def h1_def c1_def)
    have rr: "r \<notin> set rs" "r < length h" "distinct rs" "\<forall>x \<in> set rs. x < length h1"
      using Cons.prems by (simp_all add: h1_def)
    have same: "\<forall>x \<in> set rs. pos_quantity (h1 ! x) = pos_quantity (h ! x)"
    proof
      fix x assume "x \<in> set rs"
      with rr(1) have "r \<noteq> x" by auto
      then show "pos_quantity (h1 ! x) = pos_quantity (h ! x)" by (simp add: h1_def)
    qed
    have n1: "lots_nonneg h1"
      using Cons.prems(3) a unfolding lots_nonneg_def h1_def
      by (auto dest!: set_update_subset_insert [THEN subsetD])
    have IH: "quantity_sum (fst (sell_loop h1 rs (Fin (b - min a b)) c1)) rs
                = quantity_sum h1 rs - min (b - min a b) (quantity_sum h1 rs)"
      using rr n1 by (intro Cons.IH) simp_all
    have q1: "quantity_sum h1 rs = quantity_sum h rs"
      using same by (rule quantity_sum_cong)
    have "fst (sell_loop h1 rs (Fin (b - min a b)) c1) ! r = h1 ! r"
      using rr by (intro sell_loop_outside) simp_all
    then have hr: "pos_quantity (fst (sell_loop h1 rs (Fin (b - min a b)) c1) ! r) = Fin (a - min a b)"
      using rr(2) by (simp add: h1_def)
    have "quantity_sum (fst (sell_loop h (r # rs) (Fin b) c)) (r # rs)
            = (a - min a b) + (quantity_sum h rs - min (b - min a b) (quantity_sum h rs))"
      unfolding step using IH hr by (simp add: quantity_sum_def q1 [unfolded quantity_sum_def])
    also have "\<dots> = quantity_sum h (r # rs) - min b (quantity_sum h (r # rs))"
      unfolding qs using S a(2) by (simp add: min_def)
    finally show ?thesis .
  qed
qed

lemma quantity_sum_filter:
  assumes "\<forall>r \<in> set rs. nonneg (pos_quantity (h ! r))"
  shows "quantity_sum h (filter (\<lambda>r. jgt (pos_quantity (h ! r)) (Fin 0)) rs) = quantity_sum h rs"
  using assms unfolding quantity_sum_def
  by (induction rs) (auto simp add: nonneg_iff)

lemma orderPositions_not_avg:
  assumes "method \<noteq> ''avg''"
  shows "fst (orderPositions method h ps) = h" "mset (snd (orderPositions method h ps)) = mset ps"
  using assms by (simp_all add: orderPositions_def)

lemma reachable:
  assumes "\<forall>t \<in> set ts. nonneg (tx_quantity (th t))"
  shows "wf (replay method ts (init th))" "lots_nonneg (heap (replay method ts (init th)))"
proof -
  show "wf (replay method ts (init th))"
    by (intro wf_replay wf_init)
  show "lots_nonneg (heap (replay method ts (init th)))"
    using assms by (intro lots_nonneg_replay wf_init) (simp_all add: init_def lots_nonneg_def)
qed

text \<open>
  Under every method but \<open>avg\<close>, with non-negative quantities, a disposal of \<open>b\<close> at
  any point of a replay takes \<open>min b pre\<close> off the \<open>pre\<close> that the key's open lots add up
  to, and every lot that stays open has a positive quantity. The sums are those of the
  model's exact arithmetic; where a subtraction of the code rounds, they hold up to that
  rounding.
\<close>

lemma disposal_reduces_open_quantity:
  assumes "method \<noteq> ''avg''"
    and "\<forall>t \<in> set ts. nonneg (tx_quantity (th t))"
    and "nonneg (tx_quantity (th t))"
  shows "(let s = replay method ts (init th);
              tx = txs s t;
              key = getTokenKey (tx_chain tx) (tx_token_symbol tx) (tx_token_address tx);
              s' = processTransaction method t s;
              pre = quantity_sum (heap s) (positions_of s key)
          in tx_type tx = Sell \<or> tx_type tx = TransferOut \<longrightarrow>
               total_quantity (heap s) (positions_of s key) = Fin pre
               \<and> total_quantity (heap s') (positions_of s' key)
                   = Fin (pre - min (real_of (tx_quantity tx)) pre)
               \<and> (\<forall>r \<in> set (positions_of s' key). jgt (pos_quantity (heap s' ! r)) (Fin 0)))"
proof -
  define s where "s = replay method ts (init th)"
  define key where "key = getTokenKey (tx_chain (txs s t)) (tx_token_symbol (txs s t)) (tx_token_address (txs s t))"
  define ps where "ps = positions_of s key"
  define ordered where "ordered = snd (orderPositions method (heap s) ps)"
  define h' where "h' = fst (sell_loop (heap s) ordered (tx_quantity (txs s t)) (Fin 0))"
  have w: "wf s" and n: "lots_nonneg (heap s)"
    unfolding s_def using assms(2) by (rule reachable)+
  have q: "tx_quantity (txs s t) = tx_quantity (th t)"
    unfolding s_def by (simp add: tx_quantity_replay init_def)
  with assms(3) obtain b where b: "tx_quantity (txs s t) = Fin b" "0 \<le> b"
    by (auto simp add: nonneg_iff)
  have d: "distinct ps" and r: "\<forall>r \<in> set ps. r < length (heap s)"
    using w by (simp_all add: wf_def ps_def)
  have m: "mset ordered = mset ps" and oh: "fst (orderPositions method (heap s) ps) = heap s"
    unfolding ordered_def using assms(1) by (rule orderPositions_not_avg)+
  have so: "set ordered = set ps"
    using m by (metis set_mset_mset)
  have od: "distinct ordered"
    using m d by (metis mset_eq_imp_distinct_iff)
  have orr: "\<forall>r \<in> set ordered. r < length (heap s)"
    using r so by simp
  have heap': "heap (removePosition method key t s) = h'"
    unfolding heap_removePosition h'_def ordered_def ps_def oh [unfolded ps_def] ..
  have pos': "positions_of (removePosition method key t s) key
                = filter (\<lambda>r. jgt (pos_quantity (h' ! r)) (Fin 0)) ps"
    by (simp add: positions_of_removePosition heap' ps_def)
  have n': "lots_nonneg h'"
    unfolding h'_def b using n orr b(2) by (intro sell_loop_nonneg) simp_all
  have len: "length h' = length (heap s)"
    by (simp add: h'_def)
  have nps: "\<forall>r \<in> set ps. nonneg (pos_quantity (heap s ! r))"
    using n r by (simp add: lots_nonneg_def)
  have nps': "\<forall>r \<in> set ps. nonneg (pos_quantity (h' ! r))"
    using n' r len by (simp add: lots_nonneg_def)
  have pre: "total_quantity (heap s) ps = Fin (quantity_sum (heap s) ps)"
    using nps by (rule total_quantity_sum)
  have "quantity_sum h' (filter (\<lambda>r. jgt (pos_quantity (h' ! r)) (Fin 0)) ps) = quantity_sum h' ps"
    using nps' by (rule quantity_sum_filter)
  also have "\<dots> = quantity_sum h' ordered"
    using m [symmetric] by (rule quantity_sum_mset)
  also have "\<dots> = quantity_sum (heap s) ordered - min b (quantity_sum (heap s) ordered)"
    unfolding h'_def b using od orr n b(2) by (rule sell_loop_quantity_sum)
  also have "quantity_sum (heap s) ordered = quantity_sum (heap s) ps"
    using m by (rule quantity_sum_mset)
  finally have post: "total_quantity h' (filter (\<lambda>r. jgt (pos_quantity (h' ! r)) (Fin 0)) ps)
                        = Fin (quantity_sum (heap s) ps - min b (quantity_sum (heap s) ps))"
    using nps' by (simp add: total_quantity_sum)
  have p: "processTransaction method t s = removePosition method key t s"
    if "tx_type (txs s t) = Sell \<or> tx_type (txs s t) = TransferOut"
    using that by (auto simp add: processTransaction_def Let_def key_def)
  have "tx_type (txs s t) = Sell \<or> tx_type (txs s t) = TransferOut \<longrightarrow>
          total_quantity (heap s) ps = Fin (quantity_sum (heap s) ps)
          \<and> total_quantity (heap (processTransaction method t s)) (positions_of (processTransaction method t s) key)
              = Fin (quantity_sum (heap s) ps - min (real_of (tx_quantity (txs s t))) (quantity_sum (heap s) ps))
          \<and> (\<forall>r \<in> set (positions_of (processTransaction method t s) key).
                jgt (pos_quantity (heap (processTransaction method t s) ! r)) (Fin 0))"
  proof (intro impI)
    assume ty: "tx_type (txs s t) = Sell \<or> tx_type (txs s t) = TransferOut"
    show "total_quantity (heap s) ps = Fin (quantity_sum (heap s) ps)
          \<and> total_quantity (heap (processTransaction method t s)) (positions_of (processTransaction method t s) key)
              = Fin (quantity_sum (heap s) ps - min (real_of (tx_quantity (txs s t))) (quantity_sum (heap s) ps))
          \<and> (\<forall>r \<in> set (positions_of (processTransaction method t s) key).
                jgt (pos_quantity (heap (processTransaction method t s) ! r)) (Fin 0))"
      unfolding p [OF ty] heap' pos' using pre post b by simp
  qed
  then show ?thesis
    unfolding Let_def s_def [symmetric] key_def [symmetric] ps_def [symmetric] .
qed

lemma consumed_oversell:
  assumes "\<forall>r \<in> set rs. nonneg (pos_quantity (h ! r))" "quantity_sum h rs < b"
  shows "consumed h rs (Fin b) = map (\<lambda>r. (r, pos_quantity (h ! r))) rs"
  using assms
proof (induction rs arbitrary: b)
  case Nil
  then show ?case by simp
next
  case (Cons r rs)
  then obtain a where a: "pos_quantity (h ! r) = Fin a" "0 \<le> a"
    by (auto simp add: nonneg_iff)
  have S: "0 \<le> quantity_sum h rs"
    using Cons.prems(1) by (intro quantity_sum_nonneg) simp
  have lt: "a + quantity_sum h rs < b"
    using Cons.prems(2) a by (simp add: quantity_sum_def)
  with S a have "0 < b" "a < b" by simp_all
  moreover have "consumed h rs (Fin (b - a)) = map (\<lambda>r. (r, pos_quantity (h ! r))) rs"
    using Cons.prems(1) lt by (intro Cons.IH) simp_all
  ultimately show ?case
    using a by (simp add: Let_def jsub_def)
qed

lemma cost_from_all: "cost_from h (Fin 0) (map (\<lambda>r. (r, pos_quantity (h ! r))) rs) = total_value h rs"
  by (simp add: cost_from_def total_value_def foldl_map)

lemma map_nth_append_upt:
  "map ((!) (h @ xs)) [length h ..< length h + length xs] = xs"
proof -
  have "[length h ..< length h + length xs] = map (\<lambda>i. i + length h) [0 ..< length xs]"
    by (simp add: map_add_upt add.commute)
  then have "map ((!) (h @ xs)) [length h ..< length h + length xs]
               = map (\<lambda>i. xs ! i) [0 ..< length xs]"
    by (simp add: nth_append)
  then show ?thesis
    by (simp add: map_nth)
qed

lemma orderPositions_quantity_sum:
  assumes "\<forall>r \<in> set ps. r < length h"
  shows "quantity_sum (fst (orderPositions method h ps)) (snd (orderPositions method h ps))
           = quantity_sum h ps"
proof (cases "method = ''avg''")
  case False
  then show ?thesis
    using orderPositions_not_avg [of "method" h ps] quantity_sum_mset [of "snd (orderPositions method h ps)" ps h]
    by simp
next
  case True
  define avgPrice where "avgPrice = jdiv (total_value h ps) (total_quantity h ps)"
  define xs where "xs = map (\<lambda>r. (h ! r)\<lparr>pos_price_usd := avgPrice\<rparr>) ps"
  have o: "orderPositions method h ps = (h @ xs, [length h ..< length h + length xs])"
    using True by (simp add: orderPositions_def Let_def xs_def avgPrice_def)
  have "quantity_sum (h @ xs) [length h ..< length h + length xs]
          = (\<Sum>p\<leftarrow>map ((!) (h @ xs)) [length h ..< length h + length xs]. real_of (pos_quantity p))"
    unfolding quantity_sum_def by (simp add: comp_def)
  also have "\<dots> = (\<Sum>p\<leftarrow>xs. real_of (pos_quantity p))"
    by (simp only: map_nth_append_upt)
  also have "\<dots> = quantity_sum h ps"
    by (simp add: xs_def quantity_sum_def comp_def)
  finally show ?thesis
    by (simp add: o)
qed

lemma jgt_foldl_jadd:
  "jgt acc (Fin 0) \<Longrightarrow> \<forall>r \<in> set rs. jgt (f r) (Fin 0)
     \<Longrightarrow> jgt (foldl (\<lambda>sum r. jadd sum (f r)) acc rs) (Fin 0)"
proof (induction rs arbitrary: acc)
  case Nil
  then show ?case by simp
next
  case (Cons r rs)
  from Cons.prems have "jgt (jadd acc (f r)) (Fin 0)"
    by (cases acc; cases "f r") simp_all
  with Cons show ?case by simp
qed

lemma positive_lots_total:
  assumes "\<forall>r \<in> set rs. jgt (pos_quantity (h ! r)) (Fin 0)" "total_quantity h rs = Fin 0"
  shows "rs = []"
proof (cases rs)
  case Nil
  then show ?thesis .
next
  case (Cons r rs')
  with assms(1) have a: "jgt (pos_quantity (h ! r)) (Fin 0)" by simp
  then have "jgt (jadd (Fin 0) (pos_quantity (h ! r))) (Fin 0)"
    by (cases "pos_quantity (h ! r)") simp_all
  then have "jgt (total_quantity h rs) (Fin 0)"
    unfolding total_quantity_def Cons using assms(1) Cons
    by (simp add: jgt_foldl_jadd)
  with assms(2) show ?thesis by simp
qed

text \<open>
  A disposal that asks for more than the key's open lots add up to: its cost basis is
  the whole value of the ordered lots, whatever the method, so that the shortfall costs
  nothing; and under every method but \<open>avg\<close> no lot of the key stays open.
\<close>

lemma oversell_takes_every_lot:
  assumes "\<forall>t \<in> set ts. nonneg (tx_quantity (th t))"
  shows "(let s = replay method ts (init th);
              tx = txs s t;
              key = getTokenKey (tx_chain tx) (tx_token_symbol tx) (tx_token_address tx);
              (h, orderedPositions) = orderPositions method (heap s) (positions_of s key);
              s' = processTransaction method t s
          in (tx_type tx = Sell \<or> tx_type tx = TransferOut)
             \<and> (\<exists>b. tx_quantity tx = Fin b \<and> quantity_sum (heap s) (positions_of s key) < b) \<longrightarrow>
               tx_realized_pnl_usd (txs s' t)
                 = Some (jsub (jmul (tx_quantity tx) (tx_price_usd tx)) (total_value h orderedPositions))
               \<and> (method \<noteq> ''avg'' \<longrightarrow> positions_of s' key = []))"
proof -
  define s where "s = replay method ts (init th)"
  define key where "key = getTokenKey (tx_chain (txs s t)) (tx_token_symbol (txs s t)) (tx_token_address (txs s t))"
  define ps where "ps = positions_of s key"
  define h where "h = fst (orderPositions method (heap s) ps)"
  define ordered where "ordered = snd (orderPositions method (heap s) ps)"
  have w: "wf s" and n: "lots_nonneg (heap s)"
    unfolding s_def using assms by (rule reachable)+
  have d0: "distinct ps" and r0: "\<forall>r \<in> set ps. r < length (heap s)"
    using w by (simp_all add: wf_def ps_def)
  have d: "distinct ordered"
    unfolding ordered_def using d0 by (rule orderPositions_distinct)
  have r: "\<forall>r \<in> set ordered. r < length h"
    unfolding ordered_def h_def using r0 by (rule orderPositions_in_range)
  have nh: "lots_nonneg h"
    unfolding h_def using n r0 by (rule orderPositions_nonneg)
  have no: "\<forall>r \<in> set ordered. nonneg (pos_quantity (h ! r))"
    using nh r by (simp add: lots_nonneg_def)
  have qs: "quantity_sum h ordered = quantity_sum (heap s) ps"
    unfolding h_def ordered_def using r0 by (rule orderPositions_quantity_sum)
  have main: "tx_realized_pnl_usd (txs (processTransaction method t s) t)
                 = Some (jsub (jmul (tx_quantity (txs s t)) (tx_price_usd (txs s t))) (total_value h ordered))
               \<and> (method \<noteq> ''avg'' \<longrightarrow> positions_of (processTransaction method t s) key = [])"
    if ty: "tx_type (txs s t) = Sell \<or> tx_type (txs s t) = TransferOut"
      and b: "tx_quantity (txs s t) = Fin b" "quantity_sum (heap s) ps < b" for b
  proof
    have p: "processTransaction method t s = removePosition method key t s"
      using ty by (auto simp add: processTransaction_def Let_def key_def)
    have "snd (snd (sell_loop h ordered (Fin b) (Fin 0))) = cost_from h (Fin 0) (consumed h ordered (Fin b))"
      using sell_loop_consumed [OF d r, of "Fin b" "Fin 0"] by blast
    also have "consumed h ordered (Fin b) = map (\<lambda>r. (r, pos_quantity (h ! r))) ordered"
      using no b(2) by (intro consumed_oversell) (simp_all add: qs)
    finally have "snd (snd (sell_loop h ordered (Fin b) (Fin 0))) = total_value h ordered"
      by (simp add: cost_from_all)
    then show "tx_realized_pnl_usd (txs (processTransaction method t s) t)
                 = Some (jsub (jmul (tx_quantity (txs s t)) (tx_price_usd (txs s t))) (total_value h ordered))"
      unfolding p realized_removePosition by (simp add: h_def ordered_def ps_def b(1))
    show "method \<noteq> ''avg'' \<longrightarrow> positions_of (processTransaction method t s) key = []"
    proof
      assume m: "method \<noteq> ''avg''"
      have S: "0 \<le> quantity_sum (heap s) ps"
        using n r0 by (intro quantity_sum_nonneg) (simp add: lots_nonneg_def)
      have q: "tx_quantity (txs s t) = tx_quantity (th t)"
        unfolding s_def by (simp add: tx_quantity_replay init_def)
      with b S have nq: "nonneg (tx_quantity (th t))" by simp
      note A = disposal_reduces_open_quantity [OF m assms nq, unfolded Let_def,
                 folded s_def, folded key_def, folded ps_def]
      from A ty b have "total_quantity (heap (processTransaction method t s))
                          (positions_of (processTransaction method t s) key) = Fin 0"
        by (simp add: min_def)
      moreover from A ty have "\<forall>r \<in> set (positions_of (processTransaction method t s) key).
                  jgt (pos_quantity (heap (processTransaction method t s) ! r)) (Fin 0)"
        by blast
      ultimately show "positions_of (processTransaction method t s) key = []"
        by (intro positive_lots_total [of _ "heap (processTransaction method t s)"]) 
    qed
  qed
  then show ?thesis
    unfolding Let_def split_beta s_def [symmetric] key_def [symmetric] ps_def [symmetric]
      h_def [symmetric] ordered_def [symmetric]
    by blast
qed

text \<open>
  A lot of quantity 0 with a finite unit cost, wherever it stands among the ordered
  lots, changes nothing in a disposal: the loop takes nothing from it and adds nothing
  to the cost basis. This is the case of a zero-quantity acquisition under \<open>fifo\<close> and
  \<open>lifo\<close>, where the ordered lots keep their own unit costs.
\<close>

lemma jadd_zero: "jadd c (Fin 0) = c"
  by (cases c) simp_all

lemma sell_loop_not_positive: "\<not> jgt rem (Fin 0) \<Longrightarrow> sell_loop h rs rem c = (h, rem, c)"
  by (cases rs) simp_all

lemma sell_loop_zero_lot_head:
  assumes "z < length h" "pos_quantity (h ! z) = Fin 0" "pos_price_usd (h ! z) = Fin p"
  shows "sell_loop h (z # rs) rem c = sell_loop h rs rem c"
proof (cases "jgt rem (Fin 0)")
  case False
  then show ?thesis
    by (simp add: sell_loop_not_positive)
next
  case True
  then have m: "jmin (Fin 0) rem = Fin 0" and r: "jsub rem (Fin 0) = rem"
    by (cases rem; simp add: jsub_def)+
  have "(h ! z)\<lparr>pos_quantity := Fin 0\<rparr> = h ! z"
    using assms(2) by (metis Position.surjective Position.update_convs(1))
  then have "h[z := (h ! z)\<lparr>pos_quantity := Fin 0\<rparr>] = h"
    by simp
  with True m r assms show ?thesis
    by (simp add: Let_def jsub_def jadd_zero)
qed

lemma sell_loop_zero_lot:
  assumes "z \<notin> set xs" "z < length h"
    and "pos_quantity (h ! z) = Fin 0" "pos_price_usd (h ! z) = Fin p"
  shows "sell_loop h (xs @ z # ys) rem c = sell_loop h (xs @ ys) rem c"
  using assms
proof (induction xs arbitrary: h rem c)
  case Nil
  then show ?case
    by (simp only: append_Nil sell_loop_zero_lot_head)
next
  case (Cons x xs)
  show ?case
  proof (cases "jgt rem (Fin 0)")
    case False
    then show ?thesis
      by (simp add: sell_loop_not_positive)
  next
    case True
    define h1 where "h1 = h[x := (h ! x)\<lparr>pos_quantity :=
                        jsub (pos_quantity (h ! x)) (jmin (pos_quantity (h ! x)) rem)\<rparr>]"
    from Cons.prems have "x \<noteq> z"
      by auto
    then have z: "h1 ! z = h ! z" "z < length h1"
      using Cons.prems by (simp_all add: h1_def)
    have "sell_loop h1 (xs @ z # ys) rem' c' = sell_loop h1 (xs @ ys) rem' c'" for rem' c'
      using Cons.prems z by (intro Cons.IH) simp_all
    with True show ?thesis
      by (simp add: Let_def h1_def)
  qed
qed

subsection \<open>Disposals under \<open>avg\<close>\<close>

text \<open>
  Under \<open>avg\<close>, \<open>orderPositions\<close> returns new objects, and the loop of \<open>removePosition\<close>
  takes the quantity sold off those; the objects of the key's array keep their
  quantities. Under \<open>fifo\<close> and \<open>lifo\<close> the ordered array holds the objects of the key's
  array themselves. So a disposal under \<open>avg\<close> changes no object the store held before
  it, and the key's array loses only the lots whose quantity was not positive already.
\<close>

lemma avg_disposal_leaves_objects:
  assumes "r < length (heap s)"
  shows "heap (removePosition ''avg'' key t s) ! r = heap s ! r"
proof -
  define ps where "ps = positions_of s key"
  define avgPrice where "avgPrice = jdiv (total_value (heap s) ps) (total_quantity (heap s) ps)"
  define xs where "xs = map (\<lambda>r. (heap s ! r)\<lparr>pos_price_usd := avgPrice\<rparr>) ps"
  define n where "n = length (heap s)"
  have o: "orderPositions ''avg'' (heap s) ps = (heap s @ xs, [n ..< n + length xs])"
    by (simp add: orderPositions_def Let_def xs_def avgPrice_def n_def)
  have "fst (sell_loop (heap s @ xs) [n ..< n + length xs] (tx_quantity (txs s t)) (Fin 0)) ! r
          = (heap s @ xs) ! r"
    using assms by (intro sell_loop_outside) (simp_all add: n_def)
  then show ?thesis
    using assms by (simp add: heap_removePosition ps_def [symmetric] o nth_append)
qed

lemma avg_disposal_leaves_lots:
  assumes "wf s"
  shows "positions_of (removePosition ''avg'' key t s) key
           = filter (\<lambda>r. jgt (pos_quantity (heap s ! r)) (Fin 0)) (positions_of s key)"
    and "\<forall>r \<in> set (positions_of s key).
           heap (removePosition ''avg'' key t s) ! r = heap s ! r"
proof -
  have r: "\<forall>r \<in> set (positions_of s key). r < length (heap s)"
    using assms by (simp add: wf_def)
  then show "\<forall>r \<in> set (positions_of s key).
           heap (removePosition ''avg'' key t s) ! r = heap s ! r"
    by (simp add: avg_disposal_leaves_objects)
  then show "positions_of (removePosition ''avg'' key t s) key
           = filter (\<lambda>r. jgt (pos_quantity (heap s ! r)) (Fin 0)) (positions_of s key)"
    unfolding positions_of_removePosition by (simp cong: filter_cong)
qed

text \<open>
  C5, at a failing input. In the regression scenario the key holds 2 + 1 = 3 before the
  sell of 1. After it the open lots add up to 3 under \<open>avg\<close>, where the claim says
  3 - min 1 3 = 2; under \<open>fifo\<close> they add up to 2.
\<close>

theorem avg_disposal_keeps_lot_quantities:
  "(let s = replay ''avg'' [0, 1] (init regression);
        s' = processTransaction ''avg'' 2 s
    in tx_type (txs s 2) = Sell
       \<and> tx_quantity (txs s 2) = Fin 1
       \<and> total_quantity (heap s) (positions_of s ''ethereum:eth:0x0'') = Fin 3
       \<and> total_quantity (heap s') (positions_of s' ''ethereum:eth:0x0'') = Fin 3)
   \<and> (let s = replay ''fifo'' [0, 1] (init regression);
          s' = processTransaction ''fifo'' 2 s
      in total_quantity (heap s) (positions_of s ''ethereum:eth:0x0'') = Fin 3
         \<and> total_quantity (heap s') (positions_of s' ''ethereum:eth:0x0'') = Fin 2)
   \<and> map tok_quantity_held (by_token (snd (calculate ''avg'' regression [0, 1, 2] Map.empty 0)))
     = [Fin 3]"
  unfolding Let_def by (intro conjI; code_simp)

text \<open>
  C4, at a failing input. Selling 5 at 12 when 2 bought at 10 are held gives a realized
  P&L of 5 * 12 - 2 * 10 = 40 under every method and no error. Under \<open>fifo\<close> the lot is
  consumed: no lot stays open and the quantity held is 0. Under \<open>avg\<close> the lot stays open
  with its quantity of 2.
\<close>

theorem avg_oversell_keeps_lot_open:
  "map tx_realized_pnl_usd (transactions (snd (calculate ''avg'' oversell [0, 1] Map.empty 0)))
     = [None, Some (Fin 40)]
   \<and> positions_of (replay ''avg'' [0, 1] (init oversell)) ''ethereum:eth:0x0'' = [0]
   \<and> pos_quantity (heap (replay ''avg'' [0, 1] (init oversell)) ! 0) = Fin 2
   \<and> map tok_quantity_held (by_token (snd (calculate ''avg'' oversell [0, 1] Map.empty 0)))
     = [Fin 2]
   \<and> map tx_realized_pnl_usd (transactions (snd (calculate ''fifo'' oversell [0, 1] Map.empty 0)))
     = [None, Some (Fin 40)]
   \<and> positions_of (replay ''fifo'' [0, 1] (init oversell)) ''ethereum:eth:0x0'' = []
   \<and> map tok_quantity_held (by_token (snd (calculate ''fifo'' oversell [0, 1] Map.empty 0)))
     = [Fin 0]
   \<and> map tx_realized_pnl_usd (transactions (snd (calculate ''lifo'' oversell [0, 1] Map.empty 0)))
     = [None, Some (Fin 40)]"
  by (intro conjI; code_simp)

text \<open>
  C10, at a failing input. Under \<open>avg\<close>, a sell of 1 at 150 alone has a realized P&L of
  150. With a buy of quantity 0 before it the key has one lot of quantity 0, the average
  price is \<open>0 / 0\<close>, and the realized P&L of the sell and of the portfolio is \<open>NaN\<close>. Under
  \<open>fifo\<close> it is 150 with and without the buy.
\<close>

theorem avg_zero_acquisition_gives_nan:
  "tx_type (zero_acquisition 0) = Buy
   \<and> tx_quantity (zero_acquisition 0) = Fin 0
   \<and> map tx_realized_pnl_usd
       (transactions (snd (calculate ''avg'' zero_acquisition [1] Map.empty 0)))
     = [Some (Fin 150)]
   \<and> map tx_realized_pnl_usd
       (transactions (snd (calculate ''avg'' zero_acquisition [0, 1] Map.empty 0)))
     = [None, Some NaN]
   \<and> total_realized_pnl_usd (summary (snd (calculate ''avg'' zero_acquisition [1] Map.empty 0)))
     = Fin 150
   \<and> total_realized_pnl_usd (summary (snd (calculate ''avg'' zero_acquisition [0, 1] Map.empty 0)))
     = NaN
   \<and> map tx_realized_pnl_usd
       (transactions (snd (calculate ''fifo'' zero_acquisition [0, 1] Map.empty 0)))
     = [None, Some (Fin 150)]"
  by (intro conjI; code_simp)


end
